theory Spec2Isabelle
  imports Main "HOL-Library.AList" "HOL-Library.Char_ord" "HOL-Library.List_Lexorder"
begin

section \<open>Data model\<close>

text \<open>
  Records, responses and request parameters are JSON values. A Python \<open>dict\<close> is an
  association list (\<open>JObj\<close>) read with \<open>map_of\<close>; the keys of one object are
  taken to be distinct, as they are in a Python \<open>dict\<close>. Python compares \<open>str\<close>
  values by code point, which is the lexicographic order of \<open>string\<close> used here.
\<close>

datatype json =
    JNull
  | JBool bool
  | JNum int
  | JStr string
  | JArr "json list"
  | JObj "(string \<times> json) list"

datatype error =
    KeyError
  | TypeError
  | OverflowError
  | ParserError
  | TransportError string

datatype stream_id = CUSTOM_FIELDS | LEADS | ACTIVITIES | TASKS | USERS | EVENT_LOG

fun PATHS :: "stream_id \<Rightarrow> string" where
  "PATHS CUSTOM_FIELDS = ''/custom_fields/lead/''"
| "PATHS LEADS = ''/lead/''"
| "PATHS ACTIVITIES = ''/activity/''"
| "PATHS TASKS = ''/task/''"
| "PATHS USERS = ''/user/''"
| "PATHS EVENT_LOG = ''/event/''"

fun BOOK_KEYS :: "stream_id \<Rightarrow> string" where
  "BOOK_KEYS CUSTOM_FIELDS = ''date_updated''"
| "BOOK_KEYS LEADS = ''date_updated''"
| "BOOK_KEYS ACTIVITIES = ''date_created''"
| "BOOK_KEYS TASKS = ''date_updated''"
| "BOOK_KEYS USERS = ''date_updated''"
| "BOOK_KEYS EVENT_LOG = ''date_updated''"

type_synonym state_key = "stream_id \<times> string"

definition bookmark :: "stream_id \<Rightarrow> state_key" where
  "bookmark tap_stream_id = (tap_stream_id, BOOK_KEYS tap_stream_id)"

record request =
  path :: string
  params :: "(string \<times> json) list"

record page =
  records :: "json list"
  next_skip :: int

record datetime =
  year :: nat
  month :: nat
  day :: nat
  hour :: nat
  minute :: nat
  second :: nat
  microsecond :: nat

record tap_state =
  bookmarks :: "state_key \<Rightarrow> string option"
  offsets :: "state_key \<Rightarrow> int option"

text \<open>
  The context: the in-memory bookmark/offset state, the state last flushed by
  \<open>write_state\<close>, the records handed to the output collaborator with the per-stream
  record counter, the configuration, and the transport client. The client is a script:
  the results that the successive calls of \<open>request_with_handling\<close> give in this run.
  \<open>requests\<close> and \<open>paginate_calls\<close> log what was asked of the transport.
\<close>

record ctx =
  state :: tap_state
  persisted :: tap_state
  emitted :: "(stream_id \<times> json) list"
  counters :: "stream_id \<Rightarrow> nat"
  client :: "(error + json) list"
  requests :: "(stream_id \<times> request) list"
  paginate_calls :: "(stream_id \<times> request \<times> int) list"
  config_start_date :: string
  activities_window_seconds :: "int option"
  schema_dt_paths :: "stream_id \<Rightarrow> string list list"

text \<open>
  The collaborators that \<open>streams.py\<close> imports and that are not part of it:
  \<open>transform_dts\<close> and \<open>format_leads\<close> of the transformer, \<open>pendulum.parse\<close>,
  \<open>json.dumps\<close>, the paginator (the pages its generator yields one after the other,
  \<open>Inl\<close> where fetching the next page raises) and the wall clock.
\<close>

record env =
  transform_dts :: "json list \<Rightarrow> string list list \<Rightarrow> json list"
  format_leads :: "json list \<Rightarrow> json list"
  pendulum_parse :: "string \<Rightarrow> error + datetime"
  json_dumps :: "json \<Rightarrow> string"
  paginate :: "stream_id \<Rightarrow> request \<Rightarrow> int \<Rightarrow> (error + page) list"
  utcnow :: datetime

section \<open>Python primitives\<close>

text \<open>\<open>obj[key]\<close> for a \<open>str\<close> key: only a \<open>dict\<close> can be subscripted by it.\<close>

fun getitem :: "json \<Rightarrow> string \<Rightarrow> error + json" where
  "getitem (JObj kvs) k = (case map_of kvs k of None \<Rightarrow> Inl KeyError | Some v \<Rightarrow> Inr v)"
| "getitem _ k = Inl TypeError"

text \<open>\<open>obj[key] = v\<close> on a \<open>dict\<close>: an existing key keeps its place.\<close>

fun setitem :: "json \<Rightarrow> string \<Rightarrow> json \<Rightarrow> error + json" where
  "setitem (JObj kvs) k v = Inr (JObj (AList.update k v kvs))"
| "setitem _ k v = Inl TypeError"

text \<open>Truth value of a JSON value, as \<open>not x\<close> and \<open>if x\<close> test it.\<close>

fun truthy :: "json \<Rightarrow> bool" where
  "truthy JNull = False"
| "truthy (JBool b) = b"
| "truthy (JNum n) = (n \<noteq> 0)"
| "truthy (JStr s) = (s \<noteq> [])"
| "truthy (JArr xs) = (xs \<noteq> [])"
| "truthy (JObj kvs) = (kvs \<noteq> [])"

text \<open>
  The field of a record as a \<open>str\<close>: comparing anything else with the \<open>str\<close>
  watermark raises \<open>TypeError\<close>.
\<close>

fun str_field :: "json \<Rightarrow> string \<Rightarrow> error + string" where
  "str_field rec key =
     (case getitem rec key of
        Inl e \<Rightarrow> Inl e
      | Inr (JStr v) \<Rightarrow> Inr v
      | Inr _ \<Rightarrow> Inl TypeError)"

section \<open>Context operations\<close>

text \<open>
  Modelled from the spec: the \<open>Context\<close> class is not in \<open>streams.py\<close>. Its
  operations follow section 6 of the specification: \<open>get_offset\<close>, \<open>set_offset\<close>,
  \<open>clear_offsets\<close>, \<open>set_bookmark\<close>, \<open>update_start_date_bookmark\<close> (the
  effective start watermark, seeded from the configured start date when the stream has
  no bookmark yet) and \<open>write_state\<close> (flush the state).
\<close>

definition get_offset :: "ctx \<Rightarrow> state_key \<Rightarrow> int option" where
  "get_offset c k = offsets (state c) k"

definition set_offset :: "ctx \<Rightarrow> state_key \<Rightarrow> int \<Rightarrow> ctx" where
  "set_offset c k v = c\<lparr>state := (state c)\<lparr>offsets := (offsets (state c))(k \<mapsto> v)\<rparr>\<rparr>"

definition clear_offsets :: "ctx \<Rightarrow> stream_id \<Rightarrow> ctx" where
  "clear_offsets c tap_stream_id =
     c\<lparr>state := (state c)\<lparr>offsets :=
        (\<lambda>k. if fst k = tap_stream_id then None else offsets (state c) k)\<rparr>\<rparr>"

definition get_bookmark :: "ctx \<Rightarrow> state_key \<Rightarrow> string option" where
  "get_bookmark c k = bookmarks (state c) k"

definition set_bookmark :: "ctx \<Rightarrow> state_key \<Rightarrow> string \<Rightarrow> ctx" where
  "set_bookmark c k v = c\<lparr>state := (state c)\<lparr>bookmarks := (bookmarks (state c))(k \<mapsto> v)\<rparr>\<rparr>"

definition update_start_date_bookmark :: "ctx \<Rightarrow> state_key \<Rightarrow> string \<times> ctx" where
  "update_start_date_bookmark c k =
     (case get_bookmark c k of
        Some v \<Rightarrow> (v, c)
      | None \<Rightarrow> (config_start_date c, set_bookmark c k (config_start_date c)))"

definition write_state :: "ctx \<Rightarrow> ctx" where
  "write_state c = c\<lparr>persisted := state c\<rparr>"

section \<open>Helpers of streams.py\<close>

fun new_max_bookmark :: "string \<Rightarrow> json list \<Rightarrow> string \<Rightarrow> error + string" where
  "new_max_bookmark max_bookmark [] key = Inr max_bookmark"
| "new_max_bookmark max_bookmark (rec # recs) key =
     (case str_field rec key of
        Inl e \<Rightarrow> Inl e
      | Inr v \<Rightarrow>
          new_max_bookmark (if v > max_bookmark then v else max_bookmark) recs key)"

definition format_dts :: "env \<Rightarrow> stream_id \<Rightarrow> ctx \<Rightarrow> json list \<Rightarrow> json list" where
  "format_dts e tap_stream_id c recs =
     (let paths = schema_dt_paths c tap_stream_id in transform_dts e recs paths)"

definition metrics :: "stream_id \<Rightarrow> json list \<Rightarrow> ctx \<Rightarrow> ctx" where
  "metrics tap_stream_id pg c =
     c\<lparr>counters := (counters c)(tap_stream_id := counters c tap_stream_id + length pg)\<rparr>"

definition write_records :: "stream_id \<Rightarrow> json list \<Rightarrow> ctx \<Rightarrow> ctx" where
  "write_records tap_stream_id pg c =
     metrics tap_stream_id pg (c\<lparr>emitted := emitted c @ map (Pair tap_stream_id) pg\<rparr>)"

text \<open>\<open>FORMATTERS.get(tap_stream_id, lambda x: x)\<close>\<close>

fun FORMATTERS :: "env \<Rightarrow> stream_id \<Rightarrow> json list \<Rightarrow> json list" where
  "FORMATTERS e LEADS = format_leads e"
| "FORMATTERS e _ = (\<lambda>x. x)"

section \<open>The paginated sync\<close>

text \<open>\<open>[rec for rec in records if rec[bookmark_key] >= start_date]\<close>\<close>

fun to_write :: "json list \<Rightarrow> string \<Rightarrow> string \<Rightarrow> error + json list" where
  "to_write [] bookmark_key start_date = Inr []"
| "to_write (rec # recs) bookmark_key start_date =
     (case str_field rec bookmark_key of
        Inl e \<Rightarrow> Inl e
      | Inr v \<Rightarrow>
          (case to_write recs bookmark_key start_date of
             Inl e \<Rightarrow> Inl e
           | Inr ws \<Rightarrow> Inr (if v \<ge> start_date then rec # ws else ws)))"

text \<open>The body of the page loop of \<open>paginated_sync\<close>, for one page.\<close>

definition paginated_sync_page ::
  "env \<Rightarrow> stream_id \<Rightarrow> string \<Rightarrow> page \<Rightarrow> string \<Rightarrow> ctx \<Rightarrow> (error + string) \<times> ctx" where
  "paginated_sync_page e tap_stream_id start_date pg max_bookmark c =
     (let bookmark_key = BOOK_KEYS tap_stream_id;
          offset = (tap_stream_id, ''skip'');
          recs = FORMATTERS e tap_stream_id (format_dts e tap_stream_id c (records pg))
      in case to_write recs bookmark_key start_date of
           Inl err \<Rightarrow> (Inl err, c)
         | Inr ws \<Rightarrow>
             (case new_max_bookmark max_bookmark recs bookmark_key of
                Inl err \<Rightarrow> (Inl err, c)
              | Inr max_bookmark' \<Rightarrow>
                  (Inr max_bookmark',
                   write_state (set_offset (write_records tap_stream_id ws c) offset (next_skip pg)))))"

text \<open>
  The \<open>for\<close> loop over the generator: the next page is asked for only after the body
  has run on the previous one, and an error of either ends the run where it stands.
\<close>

fun paginated_sync_loop ::
  "env \<Rightarrow> stream_id \<Rightarrow> string \<Rightarrow> (error + page) list \<Rightarrow> string \<Rightarrow> ctx \<Rightarrow> (error + string) \<times> ctx" where
  "paginated_sync_loop e tap_stream_id start_date [] max_bookmark c = (Inr max_bookmark, c)"
| "paginated_sync_loop e tap_stream_id start_date (Inl err # rest) max_bookmark c = (Inl err, c)"
| "paginated_sync_loop e tap_stream_id start_date (Inr pg # rest) max_bookmark c =
     (case paginated_sync_page e tap_stream_id start_date pg max_bookmark c of
        (Inl err, c') \<Rightarrow> (Inl err, c')
      | (Inr max_bookmark', c') \<Rightarrow>
          paginated_sync_loop e tap_stream_id start_date rest max_bookmark' c')"

definition paginated_sync ::
  "env \<Rightarrow> stream_id \<Rightarrow> ctx \<Rightarrow> request \<Rightarrow> string \<Rightarrow> error option \<times> ctx" where
  "paginated_sync e tap_stream_id c req start_date =
     (let offset = (tap_stream_id, ''skip'');
          skip = (case get_offset c offset of None \<Rightarrow> 0 | Some n \<Rightarrow> n);
          max_bookmark = start_date;
          c1 = c\<lparr>paginate_calls := paginate_calls c @ [(tap_stream_id, req, skip)]\<rparr>
      in case paginated_sync_loop e tap_stream_id start_date
                (paginate e tap_stream_id req skip) max_bookmark c1 of
           (Inl err, c') \<Rightarrow> (Some err, c')
         | (Inr max_bookmark', c') \<Rightarrow>
             (None,
              write_state
                (set_bookmark (clear_offsets c' tap_stream_id) (bookmark tap_stream_id) max_bookmark')))"

section \<open>Dates and times\<close>

text \<open>
  A \<open>datetime\<close> is printed by \<open>strftime\<close> with the three formats the module uses,
  each field in decimal and zero-padded: \<open>%Y-%m-%dT%H:%M\<close>, \<open>%Y-%m-%dT%H:%M:%S\<close>
  and, for \<open>singer.utils.strftime\<close>, \<open>%Y-%m-%dT%H:%M:%S.%fZ\<close>.
\<close>

definition digit_char :: "nat \<Rightarrow> char" where
  "digit_char n = ''0123456789'' ! (n mod 10)"

function decimal :: "nat \<Rightarrow> nat \<Rightarrow> string" where
  "decimal w n =
     (if n < 10 \<and> w \<le> 1 then [digit_char n]
      else decimal (w - 1) (n div 10) @ [digit_char n])"
  by pat_completeness auto
termination
  by (relation "measure (\<lambda>(w, n). w + n)") auto

declare decimal.simps [simp del]

definition strftime_minutes :: "datetime \<Rightarrow> string" where
  "strftime_minutes dt =
     decimal 4 (year dt) @ ''-'' @ decimal 2 (month dt) @ ''-'' @ decimal 2 (day dt) @ ''T'' @
     decimal 2 (hour dt) @ '':'' @ decimal 2 (minute dt)"

definition strftime_seconds :: "datetime \<Rightarrow> string" where
  "strftime_seconds dt = strftime_minutes dt @ '':'' @ decimal 2 (second dt)"

definition strftime :: "datetime \<Rightarrow> string" where
  "strftime dt = strftime_seconds dt @ ''.'' @ decimal 6 (microsecond dt) @ ''Z''"

text \<open>
  \<open>dt - timedelta(seconds=n)\<close>: the days of the proleptic Gregorian calendar are
  counted, the seconds subtracted, and the result converted back; a result outside the
  years 1 to 9999 raises \<open>OverflowError\<close>.
\<close>

definition days_from_civil :: "int \<Rightarrow> int \<Rightarrow> int \<Rightarrow> int" where
  "days_from_civil y m d =
     (let y' = (if m \<le> 2 then y - 1 else y);
          era = y' div 400;
          yoe = y' - era * 400;
          doy = (153 * (if m > 2 then m - 3 else m + 9) + 2) div 5 + d - 1;
          doe = yoe * 365 + yoe div 4 - yoe div 100 + doy
      in era * 146097 + doe - 719468)"

definition civil_from_days :: "int \<Rightarrow> int \<times> int \<times> int" where
  "civil_from_days z0 =
     (let z = z0 + 719468;
          era = z div 146097;
          doe = z - era * 146097;
          yoe = (doe - doe div 1460 + doe div 36524 - doe div 146096) div 365;
          y = yoe + era * 400;
          doy = doe - (365 * yoe + yoe div 4 - yoe div 100);
          mp = (5 * doy + 2) div 153;
          d = doy - (153 * mp + 2) div 5 + 1;
          m = (if mp < 10 then mp + 3 else mp - 9)
      in (if m \<le> 2 then y + 1 else y, m, d))"

definition sub_timedelta :: "datetime \<Rightarrow> int \<Rightarrow> error + datetime" where
  "sub_timedelta dt secs =
     (let total = days_from_civil (int (year dt)) (int (month dt)) (int (day dt)) * 86400
                  + int (hour dt) * 3600 + int (minute dt) * 60 + int (second dt) - secs;
          r = total mod 86400
      in case civil_from_days (total div 86400) of
           (y, m, d) \<Rightarrow>
             if y < 1 \<or> 9999 < y then Inl OverflowError
             else Inr \<lparr>year = nat y, month = nat m, day = nat d,
                       hour = nat (r div 3600), minute = nat (r mod 3600 div 60),
                       second = nat (r mod 60), microsecond = microsecond dt\<rparr>)"

section \<open>Requests\<close>

text \<open>
  Modelled from the spec: \<open>create_get_request\<close> of the transport module is not in
  \<open>streams.py\<close>; it builds the request descriptor from a path and the parameters.
\<close>

definition create_get_request :: "string \<Rightarrow> (string \<times> json) list \<Rightarrow> request" where
  "create_get_request p ps = \<lparr>path = p, params = ps\<rparr>"

definition create_request :: "stream_id \<Rightarrow> (string \<times> json) list option \<Rightarrow> request" where
  "create_request tap_stream_id ps =
     (let ps' = (case ps of None \<Rightarrow> [] | Some [] \<Rightarrow> [] | Some xs \<Rightarrow> xs)
      in create_get_request (PATHS tap_stream_id) ps')"

text \<open>
  \<open>ctx.client.request_with_handling\<close>: the request is logged and the next result of
  the script is returned. \<open>None\<close> when the script says nothing about this call.
\<close>

definition request_with_handling ::
  "ctx \<Rightarrow> stream_id \<Rightarrow> request \<Rightarrow> ((error + json) \<times> ctx) option" where
  "request_with_handling c tap_stream_id req =
     (case client c of
        [] \<Rightarrow> None
      | r # rest \<Rightarrow>
          Some (r, c\<lparr>client := rest, requests := requests c @ [(tap_stream_id, req)]\<rparr>))"

section \<open>The stream strategies\<close>

definition basic_paginator :: "env \<Rightarrow> stream_id \<Rightarrow> ctx \<Rightarrow> error option \<times> ctx" where
  "basic_paginator e tap_stream_id c =
     (let req = create_request tap_stream_id None
      in case update_start_date_bookmark c (bookmark tap_stream_id) of
           (start_date, c1) \<Rightarrow> paginated_sync e tap_stream_id c1 req start_date)"

definition sync_leads :: "env \<Rightarrow> ctx \<Rightarrow> error option \<times> ctx" where
  "sync_leads e c =
     (case update_start_date_bookmark c (bookmark LEADS) of
        (start_date, c1) \<Rightarrow>
          (case pendulum_parse e start_date of
             Inl err \<Rightarrow> (Some err, c1)
           | Inr dt \<Rightarrow>
               (let formatted_start = strftime_minutes dt;
                    query = ''date_updated>=\"'' @ formatted_start @ ''\" sort:date_updated'';
                    req = create_request LEADS (Some [(''query'', JStr query)])
                in paginated_sync e LEADS c1 req start_date)))"

definition sync_activities :: "env \<Rightarrow> ctx \<Rightarrow> error option \<times> ctx" where
  "sync_activities e c =
     (case update_start_date_bookmark c (bookmark ACTIVITIES) of
        (start_date_str, c1) \<Rightarrow>
          (case pendulum_parse e start_date_str of
             Inl err \<Rightarrow> (Some err, c1)
           | Inr start_date \<Rightarrow>
               (let offset_secs = (case activities_window_seconds c1 of None \<Rightarrow> 0 | Some n \<Rightarrow> n)
                in case sub_timedelta start_date offset_secs of
                     Inl err \<Rightarrow> (Some err, c1)
                   | Inr start_date' \<Rightarrow>
                       (let formatted_start = strftime_seconds start_date';
                            ps = [(''date_created__gt'', JStr formatted_start)];
                            req = create_request ACTIVITIES (Some ps)
                        in paginated_sync e ACTIVITIES c1 req formatted_start))))"

text \<open>
  The \<open>for event in events\<close> loop: both payload fields are read, serialised and
  stored back.
\<close>

fun dump_events :: "env \<Rightarrow> json list \<Rightarrow> error + json list" where
  "dump_events e [] = Inr []"
| "dump_events e (event # events) =
     (case getitem event ''data'' of
        Inl err \<Rightarrow> Inl err
      | Inr d \<Rightarrow>
          (case setitem event ''data'' (JStr (json_dumps e d)) of
             Inl err \<Rightarrow> Inl err
           | Inr event1 \<Rightarrow>
               (case getitem event1 ''previous_data'' of
                  Inl err \<Rightarrow> Inl err
                | Inr pd \<Rightarrow>
                    (case setitem event1 ''previous_data'' (JStr (json_dumps e pd)) of
                       Inl err \<Rightarrow> Inl err
                     | Inr event2 \<Rightarrow>
                         (case dump_events e events of
                            Inl err \<Rightarrow> Inl err
                          | Inr events' \<Rightarrow> Inr (event2 # events'))))))"

text \<open>
  One turn of the \<open>while True\<close> loop of \<open>sync_event_log\<close>: it either leaves
  the loop (\<open>Break\<close>, with the maximum so far) or goes round again (\<open>Continue\<close>, with
  the next cursor and the maximum so far). A \<open>data\<close> value that is true and is not an
  array has no records to take a field of, and raises \<open>TypeError\<close>.
\<close>

datatype step = Break string | Continue json string

definition sync_event_log_page ::
  "env \<Rightarrow> string \<Rightarrow> json \<Rightarrow> string \<Rightarrow> ctx \<Rightarrow> ((error + step) \<times> ctx) option" where
  "sync_event_log_page e formatted_start cursor_next max_bookmark c =
     (let ps = [(''date_updated__gte'', JStr formatted_start)];
          ps' = (if truthy cursor_next then ps @ [(''_cursor'', cursor_next)] else ps);
          req = create_request EVENT_LOG (Some ps')
      in case request_with_handling c EVENT_LOG req of
           None \<Rightarrow> None
         | Some (Inl err, c1) \<Rightarrow> Some (Inl err, c1)
         | Some (Inr response, c1) \<Rightarrow>
             (case getitem response ''data'' of
                Inl err \<Rightarrow> Some (Inl err, c1)
              | Inr data \<Rightarrow>
                  if \<not> truthy data then Some (Inr (Break max_bookmark), c1)
                  else
                    (case data of
                       JArr raw \<Rightarrow>
                         (case dump_events e (format_dts e EVENT_LOG c1 raw) of
                            Inl err \<Rightarrow> Some (Inl err, c1)
                          | Inr events \<Rightarrow>
                              (let c2 = write_records EVENT_LOG events c1
                               in case new_max_bookmark max_bookmark events ''date_updated'' of
                                    Inl err \<Rightarrow> Some (Inl err, c2)
                                  | Inr max_bookmark' \<Rightarrow>
                                      (case getitem response ''cursor_next'' of
                                         Inl err \<Rightarrow> Some (Inl err, c2)
                                       | Inr cursor_next' \<Rightarrow>
                                           if \<not> truthy cursor_next'
                                           then Some (Inr (Break max_bookmark'), c2)
                                           else Some (Inr (Continue cursor_next' max_bookmark'),
                                                      c2))))
                     | _ \<Rightarrow> Some (Inl TypeError, c1))))"

text \<open>
  The loop. It has no bound of its own: it ends when a turn leaves it or raises, and the
  result is \<open>None\<close> when the script of the transport ends before that.
\<close>

function sync_event_log_loop ::
  "env \<Rightarrow> string \<Rightarrow> json \<Rightarrow> string \<Rightarrow> ctx \<Rightarrow> ((error + string) \<times> ctx) option" where
  "sync_event_log_loop e formatted_start cursor_next max_bookmark c =
     (case sync_event_log_page e formatted_start cursor_next max_bookmark c of
        None \<Rightarrow> None
      | Some (Inl err, c') \<Rightarrow> Some (Inl err, c')
      | Some (Inr (Break max_bookmark'), c') \<Rightarrow> Some (Inr max_bookmark', c')
      | Some (Inr (Continue cursor_next' max_bookmark'), c') \<Rightarrow>
          sync_event_log_loop e formatted_start cursor_next' max_bookmark' c')"
  by pat_completeness auto
termination
  by (relation "measure (\<lambda>(e, formatted_start, cursor_next, max_bookmark, c). length (client c))")
     (auto simp: sync_event_log_page_def Let_def request_with_handling_def write_records_def
                 metrics_def
           split: list.splits sum.splits json.splits if_splits)

declare sync_event_log_loop.simps [simp del]

definition sync_event_log :: "env \<Rightarrow> ctx \<Rightarrow> (error option \<times> ctx) option" where
  "sync_event_log e c =
     (case update_start_date_bookmark c (bookmark EVENT_LOG) of
        (start_date, c1) \<Rightarrow>
          (case pendulum_parse e start_date of
             Inl err \<Rightarrow> Some (Some err, c1)
           | Inr dt \<Rightarrow>
               (let formatted_start = strftime_seconds dt;
                    max_bookmark = start_date;
                    cursor_next = JNull
                in case sync_event_log_loop e formatted_start cursor_next max_bookmark c1 of
                     None \<Rightarrow> None
                   | Some (Inl err, c2) \<Rightarrow> Some (Some err, c2)
                   | Some (Inr max_bookmark', c2) \<Rightarrow>
                       (case sub_timedelta (utcnow e) 300 of
                          Inl err \<Rightarrow> Some (Some err, c2)
                        | Inr t \<Rightarrow>
                            (let five_minutes_ago = strftime t;
                                 max_bookmark'' = min five_minutes_ago max_bookmark'
                             in Some (None,
                                  set_bookmark c2 (bookmark EVENT_LOG) max_bookmark''))))))"

text \<open>The \<open>streams\<close> table: the strategy of each stream.\<close>

fun sync_fn :: "env \<Rightarrow> stream_id \<Rightarrow> ctx \<Rightarrow> (error option \<times> ctx) option" where
  "sync_fn e CUSTOM_FIELDS c = Some (basic_paginator e CUSTOM_FIELDS c)"
| "sync_fn e LEADS c = Some (sync_leads e c)"
| "sync_fn e ACTIVITIES c = Some (sync_activities e c)"
| "sync_fn e TASKS c = Some (basic_paginator e TASKS c)"
| "sync_fn e USERS c = Some (basic_paginator e USERS c)"
| "sync_fn e EVENT_LOG c = sync_event_log e c"

section \<open>Notions used to state the properties\<close>

text \<open>The pages that a script of the paginator yields.\<close>

fun pages_of :: "(error + page) list \<Rightarrow> page list" where
  "pages_of [] = []"
| "pages_of (Inl err # rest) = pages_of rest"
| "pages_of (Inr pg # rest) = pg # pages_of rest"

text \<open>The transformed records of a page: what the loop body binds to \<open>records\<close>.\<close>

definition page_records :: "env \<Rightarrow> stream_id \<Rightarrow> ctx \<Rightarrow> page \<Rightarrow> json list" where
  "page_records e tap_stream_id c pg =
     FORMATTERS e tap_stream_id (format_dts e tap_stream_id c (records pg))"

text \<open>The values of a \<open>str\<close> field over a list of records.\<close>

fun bookmark_values :: "json list \<Rightarrow> string \<Rightarrow> string list" where
  "bookmark_values [] key = []"
| "bookmark_values (rec # recs) key =
     (case str_field rec key of
        Inl e \<Rightarrow> bookmark_values recs key
      | Inr v \<Rightarrow> v # bookmark_values recs key)"

text \<open>The records whose field is at or after the start watermark.\<close>

definition not_too_old :: "json list \<Rightarrow> string \<Rightarrow> string \<Rightarrow> json list" where
  "not_too_old recs key start_date =
     filter (\<lambda>rec. case str_field rec key of Inl e \<Rightarrow> False | Inr v \<Rightarrow> start_date \<le> v) recs"

definition has_str_field :: "string \<Rightarrow> json \<Rightarrow> bool" where
  "has_str_field key rec = (case str_field rec key of Inl e \<Rightarrow> False | Inr v \<Rightarrow> True)"

text \<open>The maximum that a turn of the event-log loop hands on.\<close>

fun max_of :: "step \<Rightarrow> string" where
  "max_of (Break m) = m"
| "max_of (Continue cur m) = m"

text \<open>
  The cursor that a result of the transport hands on: the \<open>cursor_next\<close> field of
  the response.
\<close>

definition cursor_of :: "error + json \<Rightarrow> json" where
  "cursor_of x =
     (case x of
        Inl err \<Rightarrow> JNull
      | Inr response \<Rightarrow>
          (case getitem response ''cursor_next'' of Inl err \<Rightarrow> JNull | Inr cur \<Rightarrow> cur))"

text \<open>
  A record that is an object without the field \<open>key\<close>, and a record that is an object
  whose field \<open>key\<close>, where it has one, is a \<open>str\<close>.
\<close>

fun lacks :: "string \<Rightarrow> json \<Rightarrow> bool" where
  "lacks key (JObj kvs) = (map_of kvs key = None)"
| "lacks key _ = False"

fun str_if_present :: "string \<Rightarrow> json \<Rightarrow> bool" where
  "str_if_present key (JObj kvs) =
     (case map_of kvs key of None \<Rightarrow> True | Some (JStr s) \<Rightarrow> True | Some _ \<Rightarrow> False)"
| "str_if_present key _ = False"

section \<open>Example runs\<close>

text \<open>
  Collaborators for the examples: a transformer that leaves the records as they are,
  \<open>pendulum.parse\<close> and \<open>json.dumps\<close> on the values the examples use, a paginator
  that yields a given script, and a given clock reading.
\<close>

definition ex_2020_midnight :: datetime where
  "ex_2020_midnight = \<lparr>year = 2020, month = 1, day = 1, hour = 0, minute = 0, second = 0,
                        microsecond = 0\<rparr>"

definition ex_2020_noon :: datetime where
  "ex_2020_noon = \<lparr>year = 2020, month = 1, day = 1, hour = 12, minute = 0, second = 0,
                    microsecond = 0\<rparr>"

definition ex_1100 :: datetime where
  "ex_1100 = \<lparr>year = 2024, month = 1, day = 1, hour = 11, minute = 0, second = 0,
               microsecond = 0\<rparr>"

definition ex_1155 :: datetime where
  "ex_1155 = \<lparr>year = 2024, month = 1, day = 1, hour = 11, minute = 55, second = 0,
               microsecond = 0\<rparr>"

definition ex_1158 :: datetime where
  "ex_1158 = \<lparr>year = 2024, month = 1, day = 1, hour = 11, minute = 58, second = 30,
               microsecond = 250000\<rparr>"

definition ex_parse :: "string \<Rightarrow> error + datetime" where
  "ex_parse s =
     (if s = ''2020-01-01T00:00:00.000000Z'' then Inr ex_2020_midnight
      else if s = ''2020-01-01T12:00:00.000000Z'' then Inr ex_2020_noon
      else if s = ''2024-01-01T11:00:00.000000Z'' then Inr ex_1100
      else if s = ''2024-01-01T11:58:30.250000Z'' then Inr ex_1158
      else Inl ParserError)"

definition ex_dumps :: "json \<Rightarrow> string" where
  "ex_dumps j = (case j of JNull \<Rightarrow> ''null'' | JObj [] \<Rightarrow> ''{}'' | _ \<Rightarrow> ''[]'')"

definition ex_env :: "(error + page) list \<Rightarrow> datetime \<Rightarrow> env" where
  "ex_env script now =
     \<lparr>transform_dts = (\<lambda>recs paths. recs), format_leads = (\<lambda>recs. recs),
      pendulum_parse = ex_parse, json_dumps = ex_dumps,
      paginate = (\<lambda>tap_stream_id req skip. script), utcnow = now\<rparr>"

definition ex_noon :: datetime where
  "ex_noon = \<lparr>year = 2024, month = 1, day = 1, hour = 12, minute = 0, second = 0,
              microsecond = 0\<rparr>"

definition ex_state :: "(state_key \<Rightarrow> string option) \<Rightarrow> tap_state" where
  "ex_state bm = \<lparr>bookmarks = bm, offsets = Map.empty\<rparr>"

definition ex_ctx :: "(state_key \<Rightarrow> string option) \<Rightarrow> int option \<Rightarrow> (error + json) list \<Rightarrow> ctx" where
  "ex_ctx bm window responses =
     \<lparr>state = ex_state bm, persisted = ex_state bm, emitted = [], counters = (\<lambda>s. 0),
      client = responses, requests = [], paginate_calls = [],
      config_start_date = ''2020-01-01T00:00:00.000000Z'',
      activities_window_seconds = window,
      schema_dt_paths = (\<lambda>s. [[BOOK_KEYS s]])\<rparr>"

text \<open>
  A page with one record updated after the start watermark
  \<open>2020-01-01T00:00:00.000000Z\<close> and one updated before it.
\<close>

definition ex_rec_new :: json where
  "ex_rec_new = JObj [(''id'', JStr ''t1''), (''date_updated'', JStr ''2020-01-02T00:00:00.000000Z'')]"

definition ex_rec_old :: json where
  "ex_rec_old = JObj [(''id'', JStr ''t0''), (''date_updated'', JStr ''2019-12-31T00:00:00.000000Z'')]"

definition ex_page :: page where
  "ex_page = \<lparr>records = [ex_rec_new, ex_rec_old], next_skip = 2\<rparr>"

definition ex_start :: string where
  "ex_start = ''2020-01-01T00:00:00.000000Z''"

definition ex_bm :: "stream_id \<Rightarrow> string \<Rightarrow> state_key \<Rightarrow> string option" where
  "ex_bm sid v = Map.empty(bookmark sid \<mapsto> v)"

text \<open>
  An event-log response with one event, updated at 11:56, and no further cursor; the
  clock of the examples reads 12:00 on the same day.
\<close>

definition ex_event :: json where
  "ex_event = JObj [(''id'', JStr ''e1''),
                    (''date_updated'', JStr ''2024-01-01T11:56:00.000000Z''),
                    (''data'', JObj []), (''previous_data'', JNull)]"

definition ex_response :: json where
  "ex_response = JObj [(''data'', JArr [ex_event]), (''cursor_next'', JNull)]"

definition ex_event_ctx :: ctx where
  "ex_event_ctx = ex_ctx (ex_bm EVENT_LOG ''2024-01-01T11:00:00.000000Z'') None [Inr ex_response]"

text \<open>An event-log response without a \<open>data\<close> field, and one whose \<open>data\<close> is empty.\<close>

definition ex_no_data_ctx :: ctx where
  "ex_no_data_ctx =
     ex_ctx (ex_bm EVENT_LOG ''2024-01-01T11:00:00.000000Z'') None
       [Inr (JObj [(''cursor_next'', JNull)])]"

definition ex_empty_data_ctx :: ctx where
  "ex_empty_data_ctx =
     ex_ctx (ex_bm EVENT_LOG ''2024-01-01T11:00:00.000000Z'') None
       [Inr (JObj [(''data'', JArr []), (''cursor_next'', JNull)])]"

text \<open>
  The activities stream with a bookmark at noon and a look-back window of one hour.
\<close>

definition ex_2020_1100 :: datetime where
  "ex_2020_1100 = \<lparr>year = 2020, month = 1, day = 1, hour = 11, minute = 0, second = 0,
                    microsecond = 0\<rparr>"

definition ex_activities_ctx :: ctx where
  "ex_activities_ctx =
     ex_ctx (ex_bm ACTIVITIES ''2020-01-01T12:00:00.000000Z'') (Some 3600) []"

text \<open>
  The leads stream with its bookmark at the start of 2020, and an event log that answers
  with one event and the cursor \<open>abc\<close>, then with an empty page.
\<close>

definition ex_leads_ctx :: ctx where
  "ex_leads_ctx = ex_ctx (ex_bm LEADS ex_start) None []"

definition ex_cursor_ctx :: ctx where
  "ex_cursor_ctx =
     ex_ctx (ex_bm EVENT_LOG ''2024-01-01T11:00:00.000000Z'') None
       [Inr (JObj [(''data'', JArr [ex_event]), (''cursor_next'', JStr ''abc'')]),
        Inr (JObj [(''data'', JArr []), (''cursor_next'', JNull)])]"

text \<open>
  A page whose second record has no \<open>date_updated\<close>, and an event-log response whose
  event has no \<open>previous_data\<close>.
\<close>

definition ex_page_missing :: page where
  "ex_page_missing = \<lparr>records = [ex_rec_new, JObj [(''id'', JStr ''t2'')]], next_skip = 2\<rparr>"

definition ex_missing_ctx :: ctx where
  "ex_missing_ctx =
     ex_ctx (ex_bm EVENT_LOG ''2024-01-01T11:00:00.000000Z'') None
       [Inr (JObj [(''data'', JArr [JObj [(''id'', JStr ''e2''),
                                          (''date_updated'', JStr ''2024-01-01T11:30:00.000000Z''),
                                          (''data'', JObj [])]]),
                   (''cursor_next'', JNull)])]"

text \<open>
  An event log whose bookmark lies ninety seconds before the clock reading, answered
  with an empty page.
\<close>

definition ex_recent_ctx :: ctx where
  "ex_recent_ctx =
     ex_ctx (ex_bm EVENT_LOG ''2024-01-01T11:58:30.250000Z'') None
       [Inr (JObj [(''data'', JArr []), (''cursor_next'', JNull)])]"

section \<open>Records and the running maximum\<close>

lemmas ex_defs = ex_env_def ex_ctx_def ex_state_def ex_page_def ex_rec_new_def ex_rec_old_def
  ex_start_def

lemmas ctx_op_defs = write_state_def set_offset_def set_bookmark_def clear_offsets_def
  get_offset_def get_bookmark_def write_records_def metrics_def

lemma Max_insert_max:
  "finite S \<Longrightarrow> Max (insert (max a b) S) = Max (insert a (insert b S))"
  for a :: "'a::linorder"
  by (cases "S = {}") (simp_all add: max.assoc)

lemma to_write_Inr:
  "to_write recs key start_date = Inr ws \<Longrightarrow>
     ws = not_too_old recs key start_date \<and> list_all (has_str_field key) recs"
proof (induction recs arbitrary: ws)
  case Nil
  then show ?case by (simp add: not_too_old_def)
next
  case (Cons r recs)
  then show ?case
    by (auto simp: not_too_old_def has_str_field_def simp del: str_field.simps
             split: sum.splits if_splits)
qed

lemma to_write_total:
  "list_all (has_str_field key) recs \<Longrightarrow> \<exists>ws. to_write recs key start_date = Inr ws"
  by (induction recs)
     (auto simp: has_str_field_def simp del: str_field.simps split: sum.splits)

lemma new_max_bookmark_Inr:
  "new_max_bookmark mb recs key = Inr m \<Longrightarrow> m = Max (set (mb # bookmark_values recs key))"
proof (induction recs arbitrary: mb)
  case Nil
  then show ?case by simp
next
  case (Cons r recs)
  from Cons.prems obtain v where v: "str_field r key = Inr v"
    and rest: "new_max_bookmark (if v > mb then v else mb) recs key = Inr m"
    by (auto simp del: str_field.simps split: sum.splits)
  have "(if v > mb then v else mb) = max v mb" by (auto simp: max_def)
  with Cons.IH[OF rest] have "m = Max (insert (max v mb) (set (bookmark_values recs key)))"
    by simp
  also have "\<dots> = Max (insert v (insert mb (set (bookmark_values recs key))))"
    by (rule Max_insert_max) simp
  finally show ?case using v by (simp add: insert_commute del: str_field.simps)
qed

lemma new_max_bookmark_total:
  "list_all (has_str_field key) recs \<Longrightarrow> \<exists>m. new_max_bookmark mb recs key = Inr m"
  by (induction recs arbitrary: mb)
     (auto simp: has_str_field_def simp del: str_field.simps split: sum.splits)

section \<open>One page of the paginated sync\<close>

lemma paginated_sync_page_Inr:
  assumes "paginated_sync_page e sid start pg mb c = (Inr m, c')"
  shows "c' = write_state (set_offset (write_records sid
                (not_too_old (page_records e sid c pg) (BOOK_KEYS sid) start) c)
                (sid, ''skip'') (next_skip pg))
       \<and> m = Max (set (mb # bookmark_values (page_records e sid c pg) (BOOK_KEYS sid)))
       \<and> list_all (has_str_field (BOOK_KEYS sid)) (page_records e sid c pg)"
  using assms
  by (auto simp: paginated_sync_page_def page_records_def Let_def
           dest!: to_write_Inr new_max_bookmark_Inr split: sum.splits)

lemma paginated_sync_page_Inl:
  "paginated_sync_page e sid start pg mb c = (Inl err, c') \<Longrightarrow> c' = c"
  by (auto simp: paginated_sync_page_def Let_def split: sum.splits)

lemma page_records_cong:
  "schema_dt_paths c' = schema_dt_paths c \<Longrightarrow>
     page_records e sid c' pg = page_records e sid c pg"
  by (simp add: page_records_def format_dts_def)

lemma paginated_sync_page_frame:
  assumes "paginated_sync_page e sid start pg mb c = (r, c')"
  shows "schema_dt_paths c' = schema_dt_paths c \<and> bookmarks (state c') = bookmarks (state c)
       \<and> paginate_calls c' = paginate_calls c \<and> client c' = client c
       \<and> requests c' = requests c"
proof (cases r)
  case (Inl err)
  with assms show ?thesis by (auto dest: paginated_sync_page_Inl)
next
  case (Inr m)
  with assms show ?thesis
    by (auto dest!: paginated_sync_page_Inr
             simp: write_state_def set_offset_def write_records_def metrics_def)
qed

section \<open>The page loop\<close>

lemma paginated_sync_loop_frame:
  "paginated_sync_loop e sid start script mb c = (r, c') \<Longrightarrow>
     schema_dt_paths c' = schema_dt_paths c \<and> bookmarks (state c') = bookmarks (state c)
     \<and> paginate_calls c' = paginate_calls c \<and> client c' = client c
     \<and> requests c' = requests c"
proof (induction e sid start script mb c rule: paginated_sync_loop.induct)
  case (1 e sid start mb c)
  then show ?case by simp
next
  case (2 e sid start err rest mb c)
  then show ?case by simp
next
  case (3 e sid start pg rest mb c)
  obtain r1 c1 where p: "paginated_sync_page e sid start pg mb c = (r1, c1)"
    by (cases "paginated_sync_page e sid start pg mb c")
  note f = paginated_sync_page_frame[OF p]
  show ?case
  proof (cases r1)
    case (Inl err)
    with p "3.prems" f show ?thesis by simp
  next
    case (Inr m1)
    with p "3.prems" have "paginated_sync_loop e sid start rest m1 c1 = (r, c')" by simp
    from "3.IH"[OF p[symmetric] Inr this] f show ?thesis by simp
  qed
qed

lemma paginated_sync_loop_Inr:
  "paginated_sync_loop e sid start script mb c = (Inr m, c') \<Longrightarrow>
     emitted c' = emitted c @ concat (map (\<lambda>pg. map (Pair sid)
         (not_too_old (page_records e sid c pg) (BOOK_KEYS sid) start)) (pages_of script))
     \<and> m = Max (set (mb # concat (map (\<lambda>pg. bookmark_values (page_records e sid c pg)
                                          (BOOK_KEYS sid)) (pages_of script))))
     \<and> (\<forall>pg \<in> set (pages_of script).
           list_all (has_str_field (BOOK_KEYS sid)) (page_records e sid c pg))
     \<and> script = map Inr (pages_of script)"
proof (induction e sid start script mb c rule: paginated_sync_loop.induct)
  case (1 e sid start mb c)
  then show ?case by simp
next
  case (2 e sid start err rest mb c)
  then show ?case by simp
next
  case (3 e sid start pg rest mb c)
  let ?vals = "\<lambda>q. bookmark_values (page_records e sid c q) (BOOK_KEYS sid)"
  obtain r1 c1 where p: "paginated_sync_page e sid start pg mb c = (r1, c1)"
    by (cases "paginated_sync_page e sid start pg mb c")
  with "3.prems" obtain m1 where r1: "r1 = Inr m1"
    and rest: "paginated_sync_loop e sid start rest m1 c1 = (Inr m, c')"
    by (cases r1) auto
  note pg = paginated_sync_page_Inr[OF p[unfolded r1]]
  have sch: "schema_dt_paths c1 = schema_dt_paths c"
    using paginated_sync_page_frame[OF p] by simp
  have pr: "\<And>q. page_records e sid c1 q = page_records e sid c q"
    by (rule page_records_cong[OF sch])
  have em: "emitted c1 = emitted c @
      map (Pair sid) (not_too_old (page_records e sid c pg) (BOOK_KEYS sid) start)"
    using pg by (simp add: write_state_def set_offset_def write_records_def metrics_def)
  note IH = "3.IH"[OF p[symmetric] r1 rest, unfolded pr]
  have m1: "m1 = Max (set (mb # ?vals pg))"
    using pg by simp
  have "m = Max (insert m1 (set (concat (map ?vals (pages_of rest)))))"
    using IH by simp
  also have "\<dots> = Max (set (mb # ?vals pg) \<union> set (concat (map ?vals (pages_of rest))))"
  proof (cases "set (concat (map ?vals (pages_of rest))) = {}")
    case True
    then show ?thesis unfolding m1 by simp
  next
    case False
    then show ?thesis unfolding m1
      by (subst Max_insert) (simp_all add: Max_Un max.commute del: set_concat set_simps)
  qed
  finally have mm: "m = Max (set (mb # concat (map ?vals (pages_of (Inr pg # rest)))))"
    by (simp add: Un_commute insert_commute)
  show ?case using IH em pg mm by simp
qed

section \<open>The event-log loop\<close>

lemma bookmark_values_append:
  "bookmark_values (xs @ ys) key = bookmark_values xs key @ bookmark_values ys key"
  by (induction xs) (auto simp del: str_field.simps split: sum.splits)

lemma Max_insert_Max:
  "finite A \<Longrightarrow> finite B \<Longrightarrow> Max (insert (Max (insert a A)) B) = Max (insert a (A \<union> B))"
  for a :: "'a::linorder"
proof -
  assume fin: "finite A" "finite B"
  have "Max (insert a (A \<union> B)) = Max (insert a A \<union> insert (Max (insert a A)) B)"
  proof (rule Max_eqI[symmetric])
    show "finite (insert a A \<union> insert (Max (insert a A)) B)" using fin by simp
    show "Max (insert a (A \<union> B)) \<in> insert a A \<union> insert (Max (insert a A)) B"
      using Max_in[of "insert a (A \<union> B)"] fin by auto
    fix y assume "y \<in> insert a A \<union> insert (Max (insert a A)) B"
    then consider "y \<in> insert a A" | "y = Max (insert a A)" | "y \<in> B" by auto
    then show "y \<le> Max (insert a (A \<union> B))"
    proof cases
      case 1 then show ?thesis using fin by (intro Max_ge) auto
    next
      case 2 then show ?thesis using fin by (auto intro!: Max_mono)
    next
      case 3 then show ?thesis using fin by (intro Max_ge) auto
    qed
  qed
  also have "\<dots> = Max (insert (Max (insert a A)) B)"
  proof (rule Max_eqI)
    show "finite (insert a A \<union> insert (Max (insert a A)) B)" using fin by simp
    show "Max (insert (Max (insert a A)) B) \<in> insert a A \<union> insert (Max (insert a A)) B"
      using Max_in[of "insert (Max (insert a A)) B"] fin by auto
    fix y assume "y \<in> insert a A \<union> insert (Max (insert a A)) B"
    then consider "y \<in> insert a A" | "y \<in> insert (Max (insert a A)) B" by auto
    then show "y \<le> Max (insert (Max (insert a A)) B)"
    proof cases
      case 1
      then have "y \<le> Max (insert a A)" using fin by (intro Max_ge) auto
      also have "\<dots> \<le> Max (insert (Max (insert a A)) B)" using fin by (intro Max_ge) auto
      finally show ?thesis .
    next
      case 2 then show ?thesis using fin by (intro Max_ge) auto
    qed
  qed
  finally show ?thesis by simp
qed

lemma sync_event_log_page_frame:
  assumes "sync_event_log_page e fs cur mb c = Some (r, c')"
  shows "state c' = state c \<and> persisted c' = persisted c
       \<and> paginate_calls c' = paginate_calls c \<and> schema_dt_paths c' = schema_dt_paths c
       \<and> (\<exists>resp. client c = resp # client c')
       \<and> requests c' = requests c @
            [(EVENT_LOG, \<lparr>path = ''/event/'',
                params = (''date_updated__gte'', JStr fs) #
                         (if truthy cur then [(''_cursor'', cur)] else [])\<rparr>)]"
  using assms
  by (auto simp: sync_event_log_page_def Let_def request_with_handling_def write_records_def
                 metrics_def create_request_def create_get_request_def
           split: list.splits sum.splits json.splits if_splits)

lemma sync_event_log_page_emitted:
  assumes "sync_event_log_page e fs cur mb c = Some (r, c')"
  shows "\<exists>new. emitted c' = emitted c @ map (Pair EVENT_LOG) new
           \<and> (\<forall>st. r = Inr st \<longrightarrow>
                 max_of st = Max (set (mb # bookmark_values new ''date_updated'')))"
  using assms
  by (auto simp: sync_event_log_page_def Let_def request_with_handling_def write_records_def
                 metrics_def
           split: list.splits sum.splits json.splits if_splits
           dest!: new_max_bookmark_Inr)

lemma sync_event_log_page_Continue:
  assumes "sync_event_log_page e fs cur mb c = Some (Inr (Continue cur' m), c')"
  shows "truthy cur' \<and> (\<exists>resp. hd (client c) = Inr resp \<and> getitem resp ''cursor_next'' = Inr cur')"
  using assms
  by (auto simp: sync_event_log_page_def Let_def request_with_handling_def
           split: list.splits sum.splits json.splits if_splits)

lemma sync_event_log_loop_frame:
  "sync_event_log_loop e fs cur mb c = Some (r, c') \<Longrightarrow>
     state c' = state c \<and> persisted c' = persisted c
     \<and> paginate_calls c' = paginate_calls c \<and> schema_dt_paths c' = schema_dt_paths c"
proof (induction e fs cur mb c rule: sync_event_log_loop.induct)
  case (1 e fs cur mb c)
  from "1.prems" obtain r1 c1 where p: "sync_event_log_page e fs cur mb c = Some (r1, c1)"
    by (subst (asm) sync_event_log_loop.simps) (auto split: option.splits)
  note f = sync_event_log_page_frame[OF p]
  show ?case
  proof (cases r1)
    case (Inl err)
    with p "1.prems" f show ?thesis
      by (subst (asm) sync_event_log_loop.simps) auto
  next
    case (Inr st)
    show ?thesis
    proof (cases st)
      case (Break m)
      with Inr p "1.prems" f show ?thesis
        by (subst (asm) sync_event_log_loop.simps) auto
    next
      case (Continue cur' m)
      with Inr p "1.prems" have "sync_event_log_loop e fs cur' m c1 = Some (r, c')"
        by (subst (asm) sync_event_log_loop.simps) auto
      from "1.IH"[OF p[unfolded Inr Continue] refl refl refl this] f show ?thesis by simp
    qed
  qed
qed

lemma sync_event_log_loop_max:
  "sync_event_log_loop e fs cur mb c = Some (r, c') \<Longrightarrow>
     \<exists>new. emitted c' = emitted c @ map (Pair EVENT_LOG) new
        \<and> (\<forall>m. r = Inr m \<longrightarrow> m = Max (set (mb # bookmark_values new ''date_updated'')))"
proof (induction e fs cur mb c rule: sync_event_log_loop.induct)
  case (1 e fs cur mb c)
  from "1.prems" obtain r1 c1 where p: "sync_event_log_page e fs cur mb c = Some (r1, c1)"
    by (subst (asm) sync_event_log_loop.simps) (auto split: option.splits)
  from sync_event_log_page_emitted[OF p] obtain new1 where
    em1: "emitted c1 = emitted c @ map (Pair EVENT_LOG) new1"
    and mx1: "\<And>st. r1 = Inr st \<Longrightarrow> max_of st = Max (set (mb # bookmark_values new1 ''date_updated''))"
    by blast
  show ?case
  proof (cases r1)
    case (Inl err)
    with p "1.prems" em1 show ?thesis
      by (subst (asm) sync_event_log_loop.simps) auto
  next
    case (Inr st)
    show ?thesis
    proof (cases st)
      case (Break m)
      with Inr p "1.prems" em1 mx1[OF Inr] show ?thesis
        by (subst (asm) sync_event_log_loop.simps) auto
    next
      case (Continue cur' m)
      with Inr p "1.prems" have rest: "sync_event_log_loop e fs cur' m c1 = Some (r, c')"
        by (subst (asm) sync_event_log_loop.simps) auto
      from "1.IH"[OF p[unfolded Inr Continue] refl refl refl rest] obtain new2 where
        em2: "emitted c' = emitted c1 @ map (Pair EVENT_LOG) new2"
        and mx2: "\<And>m'. r = Inr m' \<Longrightarrow> m' = Max (set (m # bookmark_values new2 ''date_updated''))"
        by blast
      have m: "m = Max (set (mb # bookmark_values new1 ''date_updated''))"
        using mx1[OF Inr] Continue by simp
      have "emitted c' = emitted c @ map (Pair EVENT_LOG) (new1 @ new2)"
        using em1 em2 by simp
      moreover have "m' = Max (set (mb # bookmark_values (new1 @ new2) ''date_updated''))"
        if "r = Inr m'" for m'
        using mx2[OF that] unfolding m
        by (simp add: bookmark_values_append Max_insert_Max del: Max_insert)
      ultimately show ?thesis by blast
    qed
  qed
qed

section \<open>Emitted records and the running maximum of the paginated sync\<close>

lemma length_bookmark_values:
  "list_all (has_str_field key) recs \<Longrightarrow> length (bookmark_values recs key) = length recs"
  by (induction recs)
     (auto simp: has_str_field_def simp del: str_field.simps split: sum.splits)

text \<open>
  Claim C1. In a run of the page loop of \<open>paginated_sync\<close> that reaches its end, the
  records emitted are, page after page, exactly the transformed records of the page whose
  bookmark field is at or after the start watermark, and the running maximum is the
  greatest of its initial value and the bookmark fields of all the transformed records of
  all pages: every transformed record contributes a value, also those that were not
  emitted.
\<close>

theorem paginated_sync_emits_not_too_old_and_max_over_all:
  assumes "paginated_sync_loop e sid start script mb c = (Inr m, c')"
  shows "emitted c' = emitted c @ concat (map (\<lambda>pg. map (Pair sid)
             (not_too_old (page_records e sid c pg) (BOOK_KEYS sid) start)) (pages_of script))
       \<and> m = Max (set (mb # concat (map (\<lambda>pg. bookmark_values (page_records e sid c pg)
                                            (BOOK_KEYS sid)) (pages_of script))))
       \<and> (\<forall>pg \<in> set (pages_of script).
             length (bookmark_values (page_records e sid c pg) (BOOK_KEYS sid))
               = length (page_records e sid c pg))"
  using paginated_sync_loop_Inr[OF assms] length_bookmark_values by blast

theorem paginated_sync_emits_not_too_old_and_max_over_all_witness:
  "fst (paginated_sync_loop (ex_env [] ex_noon) TASKS ex_start [Inr ex_page] ex_start
          (ex_ctx Map.empty None [])) = Inr ''2020-01-02T00:00:00.000000Z''
   \<and> emitted (snd (paginated_sync_loop (ex_env [] ex_noon) TASKS ex_start [Inr ex_page] ex_start
          (ex_ctx Map.empty None []))) = [(TASKS, ex_rec_new)]"
proof -
  let ?run = "paginated_sync_loop (ex_env [] ex_noon) TASKS ex_start [Inr ex_page] ex_start
          (ex_ctx Map.empty None [])"
  have run: "?run = (Inr ''2020-01-02T00:00:00.000000Z'', snd ?run)"
    by (simp add: ex_defs paginated_sync_page_def format_dts_def ctx_op_defs)
  from paginated_sync_emits_not_too_old_and_max_over_all[OF run]
  show ?thesis
    by (simp add: ex_defs page_records_def format_dts_def not_too_old_def
          paginated_sync_page_def ctx_op_defs)
qed

section \<open>The strategies\<close>

lemma paginated_sync_None:
  assumes "paginated_sync e sid c req start = (None, c')"
  shows "\<exists>m cl. paginated_sync_loop e sid start
                  (paginate e sid req (case get_offset c (sid, ''skip'') of None \<Rightarrow> 0 | Some n \<Rightarrow> n))
                  start
                  (c\<lparr>paginate_calls := paginate_calls c @
                       [(sid, req, case get_offset c (sid, ''skip'') of None \<Rightarrow> 0 | Some n \<Rightarrow> n)]\<rparr>)
                = (Inr m, cl)
              \<and> c' = write_state (set_bookmark (clear_offsets cl sid) (bookmark sid) m)"
  using assms
  by (auto simp: paginated_sync_def Let_def split: prod.splits sum.splits)


lemma paginated_sync_calls:
  assumes "paginated_sync e sid c req start = (r, c')"
  shows "paginate_calls c' = paginate_calls c @
           [(sid, req, case get_offset c (sid, ''skip'') of None \<Rightarrow> 0 | Some n \<Rightarrow> n)]"
proof -
  let ?skip = "case get_offset c (sid, ''skip'') of None \<Rightarrow> 0 | Some n \<Rightarrow> n"
  let ?c1 = "c\<lparr>paginate_calls := paginate_calls c @ [(sid, req, ?skip)]\<rparr>"
  obtain r1 cl where l: "paginated_sync_loop e sid start (paginate e sid req ?skip) start ?c1 = (r1, cl)"
    by (cases "paginated_sync_loop e sid start (paginate e sid req ?skip) start ?c1")
  from paginated_sync_loop_frame[OF l] have "paginate_calls cl = paginate_calls ?c1" by simp
  with assms l show ?thesis
    by (auto simp: paginated_sync_def Let_def ctx_op_defs split: prod.splits sum.splits)
qed

lemma update_start_date_bookmark_eq:
  "update_start_date_bookmark c k = (start, c1) \<Longrightarrow>
     get_bookmark c1 k = Some start
     \<and> (get_bookmark c k \<noteq> None \<longrightarrow> c1 = c)
     \<and> offsets (state c1) = offsets (state c) \<and> persisted c1 = persisted c
     \<and> emitted c1 = emitted c \<and> paginate_calls c1 = paginate_calls c
     \<and> requests c1 = requests c \<and> client c1 = client c
     \<and> schema_dt_paths c1 = schema_dt_paths c
     \<and> activities_window_seconds c1 = activities_window_seconds c"
  by (auto simp: update_start_date_bookmark_def get_bookmark_def set_bookmark_def
           split: option.splits)





section \<open>Errors leave the bookmark alone\<close>



section \<open>The clamped bookmark of the event log\<close>

lemma sync_event_log_None:
  assumes "sync_event_log e c = Some (None, c')"
    and "update_start_date_bookmark c (bookmark EVENT_LOG) = (start, c1)"
  shows "\<exists>dt m c2 t. pendulum_parse e start = Inr dt
           \<and> sync_event_log_loop e (strftime_seconds dt) JNull start c1 = Some (Inr m, c2)
           \<and> sub_timedelta (utcnow e) 300 = Inr t
           \<and> c' = set_bookmark c2 (bookmark EVENT_LOG) (min (strftime t) m)"
  using assms
  by (auto simp: sync_event_log_def Let_def split: prod.splits sum.splits option.splits)

text \<open>
  Claim C4. A run of the event-log strategy that completes sets the bookmark to the
  minimum of the computed maximum (the greatest of the start watermark and the
  \<open>date_updated\<close> values of the events emitted in the run) and the clock reading minus
  five minutes as \<open>strftime\<close> prints it; so the bookmark never exceeds that timestamp.
\<close>

theorem event_log_bookmark_is_clamped:
  assumes "sync_event_log e c = Some (None, c')"
  shows "\<exists>t new. sub_timedelta (utcnow e) 300 = Inr t
           \<and> emitted c' = emitted c @ map (Pair EVENT_LOG) new
           \<and> get_bookmark c' (bookmark EVENT_LOG) =
               Some (min (strftime t)
                      (Max (set (fst (update_start_date_bookmark c (bookmark EVENT_LOG)) #
                                 bookmark_values new ''date_updated''))))
           \<and> the (get_bookmark c' (bookmark EVENT_LOG)) \<le> strftime t"
proof -
  obtain start c1 where u: "update_start_date_bookmark c (bookmark EVENT_LOG) = (start, c1)"
    by (cases "update_start_date_bookmark c (bookmark EVENT_LOG)")
  from sync_event_log_None[OF assms u] obtain dt m c2 t where
    loop: "sync_event_log_loop e (strftime_seconds dt) JNull start c1 = Some (Inr m, c2)"
    and t: "sub_timedelta (utcnow e) 300 = Inr t"
    and c': "c' = set_bookmark c2 (bookmark EVENT_LOG) (min (strftime t) m)"
    by blast
  from sync_event_log_loop_max[OF loop] obtain new where
    em: "emitted c2 = emitted c1 @ map (Pair EVENT_LOG) new"
    and m: "m = Max (set (start # bookmark_values new ''date_updated''))"
    by blast
  have "emitted c' = emitted c @ map (Pair EVENT_LOG) new"
    using em c' update_start_date_bookmark_eq[OF u] by (simp add: set_bookmark_def)
  moreover have "get_bookmark c' (bookmark EVENT_LOG) = Some (min (strftime t) m)"
    using c' by (simp add: set_bookmark_def get_bookmark_def)
  ultimately show ?thesis using t m u by auto
qed

lemmas ex_event_defs = ex_event_ctx_def ex_response_def ex_event_def ex_parse_def
  ex_dumps_def ex_bm_def

lemma ex_five_minutes_ago: "sub_timedelta ex_noon 300 = Inr ex_1155"
  by code_simp

lemma ex_strftime: "strftime ex_1155 = ''2024-01-01T11:55:00.000000Z''"
  by code_simp

lemma ex_strftime_seconds: "strftime_seconds ex_1100 = ''2024-01-01T11:00:00''"
  by code_simp

lemmas ex_event_simps = sync_event_log_def update_start_date_bookmark_def ex_defs ex_event_defs
  sync_event_log_loop.simps sync_event_log_page_def request_with_handling_def
  create_request_def create_get_request_def format_dts_def bookmark_def
  ctx_op_defs Let_def ex_five_minutes_ago ex_strftime ex_strftime_seconds

lemma ex_event_run:
  "sync_event_log (ex_env [] ex_noon) ex_event_ctx =
     Some (None, snd (the (sync_event_log (ex_env [] ex_noon) ex_event_ctx)))"
  by (simp add: ex_event_simps)

theorem event_log_bookmark_is_clamped_witness:
  "fst (the (sync_event_log (ex_env [] ex_noon) ex_event_ctx)) = None
   \<and> get_bookmark (snd (the (sync_event_log (ex_env [] ex_noon) ex_event_ctx))) (bookmark EVENT_LOG)
       = Some ''2024-01-01T11:55:00.000000Z''
   \<and> ''2024-01-01T11:55:00.000000Z'' < ''2024-01-01T11:56:00.000000Z''"
proof -
  let ?run = "sync_event_log (ex_env [] ex_noon) ex_event_ctx"
  from event_log_bookmark_is_clamped[OF ex_event_run]
  obtain t new where t: "sub_timedelta (utcnow (ex_env [] ex_noon)) 300 = Inr t"
    and em: "emitted (snd (the ?run)) = emitted ex_event_ctx @ map (Pair EVENT_LOG) new"
    and b: "get_bookmark (snd (the ?run)) (bookmark EVENT_LOG) =
               Some (min (strftime t)
                      (Max (set (fst (update_start_date_bookmark ex_event_ctx (bookmark EVENT_LOG)) #
                                 bookmark_values new ''date_updated''))))"
    by blast
  have t': "strftime t = ''2024-01-01T11:55:00.000000Z''"
    using t by (auto simp: ex_env_def ex_five_minutes_ago ex_strftime)
  have "emitted (snd (the ?run)) = [(EVENT_LOG,
          JObj [(''id'', JStr ''e1''), (''date_updated'', JStr ''2024-01-01T11:56:00.000000Z''),
                (''data'', JStr ''{}''), (''previous_data'', JStr ''null'')])]"
    by (simp add: ex_event_simps)
  with em have new: "new = [JObj [(''id'', JStr ''e1''),
      (''date_updated'', JStr ''2024-01-01T11:56:00.000000Z''),
      (''data'', JStr ''{}''), (''previous_data'', JStr ''null'')]]"
    by (auto simp: ex_event_ctx_def ex_ctx_def map_eq_Cons_conv)
  have "fst (the ?run) = None" by (subst ex_event_run) simp
  moreover have "get_bookmark (snd (the ?run)) (bookmark EVENT_LOG)
       = Some ''2024-01-01T11:55:00.000000Z''"
    unfolding b t' new
    by (simp add: update_start_date_bookmark_def ex_event_defs ex_defs ctx_op_defs bookmark_def)
  ultimately show ?thesis by simp
qed

section \<open>The bookmark committed by the paginated sync\<close>

lemma bookmark_values_concat:
  "bookmark_values (concat xss) key = concat (map (\<lambda>xs. bookmark_values xs key) xss)"
  by (induction xss) (simp_all add: bookmark_values_append)

lemma not_too_old_concat:
  "not_too_old (concat xss) key start = concat (map (\<lambda>xs. not_too_old xs key start) xss)"
  by (simp add: not_too_old_def filter_concat)

lemma bookmark_values_not_too_old:
  "list_all (has_str_field key) recs \<Longrightarrow>
     bookmark_values (not_too_old recs key start) key
       = filter (\<lambda>v. start \<le> v) (bookmark_values recs key)"
  by (induction recs)
     (auto simp: not_too_old_def has_str_field_def simp del: str_field.simps split: sum.splits)

lemma not_too_old_Nil_iff:
  "list_all (has_str_field key) recs \<Longrightarrow>
     not_too_old recs key start = [] \<longleftrightarrow> filter (\<lambda>v. start \<le> v) (bookmark_values recs key) = []"
  by (induction recs)
     (auto simp: not_too_old_def has_str_field_def simp del: str_field.simps split: sum.splits)

lemma Max_start_filter:
  "Max (set (s # vs)) =
     (if filter (\<lambda>v. s \<le> v) vs = [] then s else Max (set (filter (\<lambda>v. s \<le> v) vs)))"
  for s :: "'a::linorder"
proof (cases "filter (\<lambda>v. s \<le> v) vs = []")
  case True
  then have "\<And>v. v \<in> set vs \<Longrightarrow> v \<le> s"
    by (simp add: filter_empty_conv not_le less_imp_le)
  then have "Max (insert s (set vs)) = s"
    by (rule Max_insert2[OF finite_set])
  with True show ?thesis by simp
next
  case False
  let ?F = "set (filter (\<lambda>v. s \<le> v) vs)"
  from False obtain w where w0: "w \<in> set vs" and sw: "s \<le> w"
    by (auto simp: filter_empty_conv)
  then have w: "w \<in> ?F" by simp
  from False have ne: "?F \<noteq> {}" by (metis set_empty)
  have wM: "w \<le> Max ?F" by (rule Max_ge[OF finite_set w])
  have sM: "s \<le> Max ?F" by (rule order_trans[OF sw wM])
  have "Max (insert s (set vs)) = Max ?F"
  proof (rule Max_eqI)
    show "finite (insert s (set vs))" by simp
    have "Max ?F \<in> ?F" by (rule Max_in[OF finite_set ne])
    then show "Max ?F \<in> insert s (set vs)" by simp
    fix y assume y: "y \<in> insert s (set vs)"
    show "y \<le> Max ?F"
    proof (cases "s \<le> y")
      case True
      show ?thesis
      proof (cases "y = s")
        case True
        with sM show ?thesis by simp
      next
        case False
        with y True have "y \<in> ?F" by simp
        then show ?thesis by (rule Max_ge[OF finite_set])
      qed
    next
      case False
      then have "y \<le> s" by simp
      then show ?thesis using sM by (rule order_trans)
    qed
  qed
  with False show ?thesis by simp
qed

lemma list_all_concat: "list_all P (concat xss) \<longleftrightarrow> (\<forall>xs \<in> set xss. list_all P xs)"
  by (induction xss) auto

text \<open>
  Claim C5, as amended. For the streams synced by \<open>paginated_sync\<close> (variants a to c):
  after a sync that completes, the persisted skip offset of the stream is absent, and
  the persisted bookmark is the greatest bookmark field among the records emitted in
  this sync, or the start watermark given to \<open>paginated_sync\<close> when none was emitted.
\<close>

theorem paginated_sync_commits_max_of_emitted:
  assumes "paginated_sync e sid c req start = (None, c')"
  shows "\<exists>new. emitted c' = emitted c @ map (Pair sid) new
           \<and> offsets (persisted c') (sid, ''skip'') = None
           \<and> bookmarks (persisted c') (bookmark sid) =
               Some (if new = [] then start
                     else Max (set (bookmark_values new (BOOK_KEYS sid))))"
proof -
  let ?key = "BOOK_KEYS sid"
  let ?skip = "case get_offset c (sid, ''skip'') of None \<Rightarrow> 0 | Some n \<Rightarrow> n"
  define c1 where "c1 = c\<lparr>paginate_calls := paginate_calls c @ [(sid, req, ?skip)]\<rparr>"
  define script where "script = paginate e sid req ?skip"
  from paginated_sync_None[OF assms] obtain m cl where
    loop: "paginated_sync_loop e sid start script start c1 = (Inr m, cl)"
    and c': "c' = write_state (set_bookmark (clear_offsets cl sid) (bookmark sid) m)"
    unfolding c1_def script_def by blast
  have c1: "emitted c1 = emitted c" by (simp add: c1_def)
  let ?all = "concat (map (page_records e sid c1) (pages_of script))"
  let ?new = "not_too_old ?all ?key start"
  from paginated_sync_loop_Inr[OF loop]
  have em: "emitted cl = emitted c1 @ concat (map (\<lambda>pg. map (Pair sid)
         (not_too_old (page_records e sid c1 pg) ?key start)) (pages_of script))"
    and m: "m = Max (set (start # concat (map (\<lambda>pg. bookmark_values (page_records e sid c1 pg)
                                          ?key) (pages_of script))))"
    and str: "\<forall>pg \<in> set (pages_of script). list_all (has_str_field ?key) (page_records e sid c1 pg)"
    by blast+
  have all: "list_all (has_str_field ?key) ?all"
    using str by (simp add: list_all_concat)
  have em': "emitted c' = emitted c @ map (Pair sid) ?new"
    using em c1 c' by (simp add: ctx_op_defs not_too_old_concat map_concat comp_def)
  have m': "m = Max (set (start # bookmark_values ?all ?key))"
    using m by (simp add: bookmark_values_concat comp_def)
  have "m = (if ?new = [] then start else Max (set (bookmark_values ?new ?key)))"
    unfolding m' Max_start_filter[of start] bookmark_values_not_too_old[OF all]
      not_too_old_Nil_iff[OF all] ..
  moreover have "offsets (persisted c') (sid, ''skip'') = None"
    and "bookmarks (persisted c') (bookmark sid) = Some m"
    using c' by (simp_all add: ctx_op_defs)
  ultimately show ?thesis using em' by blast
qed

lemmas ex_paginated_simps = ex_defs ex_bm_def paginated_sync_def paginated_sync_page_def
  format_dts_def ctx_op_defs bookmark_def create_request_def create_get_request_def Let_def

theorem paginated_sync_commits_max_of_emitted_witness:
  "fst (paginated_sync (ex_env [Inr ex_page] ex_noon) TASKS
         (ex_ctx (ex_bm TASKS ex_start) None []) (create_request TASKS None) ex_start) = None
   \<and> offsets (persisted (snd (paginated_sync (ex_env [Inr ex_page] ex_noon) TASKS
         (ex_ctx (ex_bm TASKS ex_start) None []) (create_request TASKS None) ex_start)))
        (TASKS, ''skip'') = None
   \<and> bookmarks (persisted (snd (paginated_sync (ex_env [Inr ex_page] ex_noon) TASKS
         (ex_ctx (ex_bm TASKS ex_start) None []) (create_request TASKS None) ex_start)))
        (bookmark TASKS) = Some ''2020-01-02T00:00:00.000000Z''"
proof -
  let ?p = "paginated_sync (ex_env [Inr ex_page] ex_noon) TASKS
         (ex_ctx (ex_bm TASKS ex_start) None []) (create_request TASKS None) ex_start"
  have p: "?p = (None, snd ?p)"
    by (simp add: ex_paginated_simps)
  from paginated_sync_commits_max_of_emitted[OF p] obtain new where
    em: "emitted (snd ?p) = emitted (ex_ctx (ex_bm TASKS ex_start) None []) @ map (Pair TASKS) new"
    and off: "offsets (persisted (snd ?p)) (TASKS, ''skip'') = None"
    and bm: "bookmarks (persisted (snd ?p)) (bookmark TASKS) =
               Some (if new = [] then ex_start
                     else Max (set (bookmark_values new (BOOK_KEYS TASKS))))"
    by blast
  have "emitted (snd ?p) = [(TASKS, ex_rec_new)]"
    by (simp add: ex_paginated_simps)
  with em have new: "new = [ex_rec_new]"
    by (auto simp: ex_ctx_def map_eq_Cons_conv)
  have "fst ?p = None" by (subst p) simp
  moreover have "bookmarks (persisted (snd ?p)) (bookmark TASKS)
       = Some ''2020-01-02T00:00:00.000000Z''"
    unfolding bm new by (simp add: ex_rec_new_def)
  ultimately show ?thesis using off by simp
qed

text \<open>
  Claim C5 as stated fails for the event log: in the example run one event updated at
  11:56 is emitted, and the bookmark is set to 11:55, the clock reading minus five
  minutes.
\<close>

theorem event_log_bookmark_is_not_max_of_emitted:
  "fst (the (sync_event_log (ex_env [] ex_noon) ex_event_ctx)) = None
   \<and> bookmark_values (map snd (emitted (snd (the (sync_event_log (ex_env [] ex_noon)
        ex_event_ctx))))) ''date_updated'' = [''2024-01-01T11:56:00.000000Z'']
   \<and> get_bookmark (snd (the (sync_event_log (ex_env [] ex_noon) ex_event_ctx)))
        (bookmark EVENT_LOG) = Some ''2024-01-01T11:55:00.000000Z''
   \<and> ''2024-01-01T11:55:00.000000Z'' \<noteq> ''2024-01-01T11:56:00.000000Z''"
  by (simp add: ex_event_simps)

section \<open>What is persisted after each page\<close>

lemma paginated_sync_loop_append:
  "paginated_sync_loop e sid start (xs @ ys) mb c =
     (case paginated_sync_loop e sid start xs mb c of
        (Inl err, c1) \<Rightarrow> (Inl err, c1)
      | (Inr m1, c1) \<Rightarrow> paginated_sync_loop e sid start ys m1 c1)"
  by (induction e sid start xs mb c rule: paginated_sync_loop.induct)
     (auto split: prod.splits sum.splits)

lemma paginated_sync_loop_snoc:
  assumes "paginated_sync_loop e sid start (pre @ [Inr pg]) mb c = (Inr m, c')"
  shows "\<exists>m1 c1. paginated_sync_loop e sid start pre mb c = (Inr m1, c1)
           \<and> paginated_sync_page e sid start pg m1 c1 = (Inr m, c')"
  using assms
  by (auto simp: paginated_sync_loop_append split: prod.splits sum.splits)

text \<open>
  Claim C6, as amended. In the page loop of \<open>paginated_sync\<close>, when a page has been
  emitted the updated skip offset has been persisted, before the next page is asked
  for; the bookmarks, persisted and in memory, are still those from before the loop:
  the maximum so far is kept in a local variable only.
\<close>

theorem page_persists_offset_and_leaves_bookmark:
  assumes "paginated_sync_loop e sid start (pre @ [Inr pg]) mb c = (Inr m, c')"
  shows "offsets (persisted c') (sid, ''skip'') = Some (next_skip pg)
       \<and> bookmarks (persisted c') = bookmarks (state c)
       \<and> bookmarks (state c') = bookmarks (state c)"
proof -
  from paginated_sync_loop_snoc[OF assms] obtain m1 c1 where
    pre: "paginated_sync_loop e sid start pre mb c = (Inr m1, c1)"
    and pg: "paginated_sync_page e sid start pg m1 c1 = (Inr m, c')"
    by blast
  have b1: "bookmarks (state c1) = bookmarks (state c)"
    using paginated_sync_loop_frame[OF pre] by simp
  from paginated_sync_page_Inr[OF pg] have
    "c' = write_state (set_offset (write_records sid
            (not_too_old (page_records e sid c1 pg) (BOOK_KEYS sid) start) c1)
            (sid, ''skip'') (next_skip pg))"
    by simp
  then show ?thesis using b1 by (simp add: ctx_op_defs)
qed

theorem page_persists_offset_and_leaves_bookmark_witness:
  "fst (paginated_sync_loop (ex_env [] ex_noon) TASKS ex_start ([] @ [Inr ex_page]) ex_start
          (ex_ctx (ex_bm TASKS ex_start) None [])) = Inr ''2020-01-02T00:00:00.000000Z''
   \<and> offsets (persisted (snd (paginated_sync_loop (ex_env [] ex_noon) TASKS ex_start
          ([] @ [Inr ex_page]) ex_start (ex_ctx (ex_bm TASKS ex_start) None []))))
        (TASKS, ''skip'') = Some 2"
proof -
  let ?run = "paginated_sync_loop (ex_env [] ex_noon) TASKS ex_start ([] @ [Inr ex_page]) ex_start
          (ex_ctx (ex_bm TASKS ex_start) None [])"
  have run: "?run = (Inr ''2020-01-02T00:00:00.000000Z'', snd ?run)"
    by (simp add: ex_defs ex_bm_def paginated_sync_page_def format_dts_def ctx_op_defs)
  from page_persists_offset_and_leaves_bookmark[OF run]
  have "offsets (persisted (snd ?run)) (TASKS, ''skip'') = Some (next_skip ex_page)" by blast
  moreover have "fst ?run = Inr ''2020-01-02T00:00:00.000000Z''" by (subst run) simp
  ultimately show ?thesis by (simp add: ex_page_def)
qed

text \<open>
  Claim C6 as stated fails: after the page of the example the maximum so far is
  \<open>2020-01-02\<close>, and the persisted bookmark is still the start watermark.
\<close>

theorem max_bookmark_not_persisted_after_page:
  "fst (paginated_sync_loop (ex_env [] ex_noon) TASKS ex_start [Inr ex_page] ex_start
          (ex_ctx (ex_bm TASKS ex_start) None [])) = Inr ''2020-01-02T00:00:00.000000Z''
   \<and> bookmarks (persisted (snd (paginated_sync_loop (ex_env [] ex_noon) TASKS ex_start
          [Inr ex_page] ex_start (ex_ctx (ex_bm TASKS ex_start) None [])))) (bookmark TASKS)
        = Some ''2020-01-01T00:00:00.000000Z''
   \<and> bookmarks (persisted (snd (paginated_sync_loop (ex_env [] ex_noon) TASKS ex_start
          [Inr ex_page] ex_start (ex_ctx (ex_bm TASKS ex_start) None [])))) (bookmark TASKS)
        \<noteq> Some ''2020-01-02T00:00:00.000000Z''"
  by (simp add: ex_defs ex_bm_def paginated_sync_page_def format_dts_def ctx_op_defs bookmark_def
        Let_def)

lemma sync_event_log_persisted:
  assumes "sync_event_log e c = Some (r, c')"
  shows "persisted c' = persisted c"
proof -
  obtain start c1 where u: "update_start_date_bookmark c (bookmark EVENT_LOG) = (start, c1)"
    by (cases "update_start_date_bookmark c (bookmark EVENT_LOG)")
  have p1: "persisted c1 = persisted c" using update_start_date_bookmark_eq[OF u] by simp
  from assms u p1 show ?thesis
    by (auto simp: sync_event_log_def Let_def set_bookmark_def
             split: sum.splits option.splits prod.splits
             dest!: sync_event_log_loop_frame)
qed

text \<open>
  Claim C7, as amended. The paginated strategies flush the state (\<open>write_state\<close>) after
  each page and at completion: the persisted state is then the state in memory. The
  event-log strategy never flushes: whatever its outcome, the persisted state is the
  one from before the sync.
\<close>

theorem write_state_follows_pages_of_paginated_sync_only:
  "(paginated_sync_loop e sid start (pre @ [Inr pg]) mb c = (Inr m, c1)
      \<longrightarrow> persisted c1 = state c1)
   \<and> (paginated_sync e sid c req start = (None, c2) \<longrightarrow> persisted c2 = state c2)
   \<and> (sync_event_log e c = Some (r, c3) \<longrightarrow> persisted c3 = persisted c)"
proof (intro conjI impI)
  assume "paginated_sync_loop e sid start (pre @ [Inr pg]) mb c = (Inr m, c1)"
  from paginated_sync_loop_snoc[OF this] obtain m0 c0 where
    "paginated_sync_page e sid start pg m0 c0 = (Inr m, c1)" by blast
  from paginated_sync_page_Inr[OF this] show "persisted c1 = state c1"
    by (simp add: ctx_op_defs)
next
  assume "paginated_sync e sid c req start = (None, c2)"
  from paginated_sync_None[OF this] show "persisted c2 = state c2"
    by (auto simp: ctx_op_defs)
next
  assume "sync_event_log e c = Some (r, c3)"
  then show "persisted c3 = persisted c" by (rule sync_event_log_persisted)
qed

theorem write_state_follows_pages_of_paginated_sync_only_witness:
  "persisted (snd (paginated_sync_loop (ex_env [] ex_noon) TASKS ex_start ([] @ [Inr ex_page])
       ex_start (ex_ctx (ex_bm TASKS ex_start) None [])))
     = state (snd (paginated_sync_loop (ex_env [] ex_noon) TASKS ex_start ([] @ [Inr ex_page])
       ex_start (ex_ctx (ex_bm TASKS ex_start) None [])))
   \<and> persisted (snd (paginated_sync (ex_env [Inr ex_page] ex_noon) TASKS
         (ex_ctx (ex_bm TASKS ex_start) None []) (create_request TASKS None) ex_start))
     = state (snd (paginated_sync (ex_env [Inr ex_page] ex_noon) TASKS
         (ex_ctx (ex_bm TASKS ex_start) None []) (create_request TASKS None) ex_start))
   \<and> persisted (snd (the (sync_event_log (ex_env [] ex_noon) ex_event_ctx)))
     = persisted ex_event_ctx"
proof -
  let ?l = "paginated_sync_loop (ex_env [] ex_noon) TASKS ex_start ([] @ [Inr ex_page])
       ex_start (ex_ctx (ex_bm TASKS ex_start) None [])"
  let ?p = "paginated_sync (ex_env [Inr ex_page] ex_noon) TASKS
         (ex_ctx (ex_bm TASKS ex_start) None []) (create_request TASKS None) ex_start"
  have l: "?l = (Inr ''2020-01-02T00:00:00.000000Z'', snd ?l)"
    by (simp add: ex_paginated_simps)
  have p: "?p = (None, snd ?p)"
    by (simp add: ex_paginated_simps)
  from write_state_follows_pages_of_paginated_sync_only
    [of "ex_env [] ex_noon" TASKS ex_start "[]" ex_page ex_start
        "ex_ctx (ex_bm TASKS ex_start) None []" "''2020-01-02T00:00:00.000000Z''" "snd ?l"]
    l
  have 1: "persisted (snd ?l) = state (snd ?l)" by blast
  from write_state_follows_pages_of_paginated_sync_only
    [of "ex_env [Inr ex_page] ex_noon" TASKS ex_start _ _ _
        "ex_ctx (ex_bm TASKS ex_start) None []" _ _ "create_request TASKS None" "snd ?p"]
    p
  have 2: "persisted (snd ?p) = state (snd ?p)" by blast
  from write_state_follows_pages_of_paginated_sync_only
    [of "ex_env [] ex_noon" _ _ _ _ _ ex_event_ctx _ _ _ _ None
        "snd (the (sync_event_log (ex_env [] ex_noon) ex_event_ctx))"]
    ex_event_run
  have 3: "persisted (snd (the (sync_event_log (ex_env [] ex_noon) ex_event_ctx)))
     = persisted ex_event_ctx" by blast
  from 1 2 3 show ?thesis by blast
qed

text \<open>
  Claim C7 as stated fails for the event log: the example run completes and sets the
  bookmark to 11:55 in memory, and the persisted bookmark is still 11:00.
\<close>

theorem event_log_bookmark_is_not_flushed:
  "fst (the (sync_event_log (ex_env [] ex_noon) ex_event_ctx)) = None
   \<and> bookmarks (state (snd (the (sync_event_log (ex_env [] ex_noon) ex_event_ctx))))
        (bookmark EVENT_LOG) = Some ''2024-01-01T11:55:00.000000Z''
   \<and> bookmarks (persisted (snd (the (sync_event_log (ex_env [] ex_noon) ex_event_ctx))))
        (bookmark EVENT_LOG) = Some ''2024-01-01T11:00:00.000000Z''"
  by (simp add: ex_event_simps)

section \<open>Empty and absent data in the event log\<close>

text \<open>
  Claim C8, as amended. In the event-log loop, a response whose \<open>data\<close> field is
  present and empty (an empty array, \<open>null\<close>, or any other false value) is taken as
  "no more pages": the loop ends normally with the maximum so far. A response that has
  no \<open>data\<close> field is not: reading the field raises, and the loop ends with that
  error.
\<close>

theorem empty_data_ends_loop_absent_data_raises:
  assumes "client c = Inr response # rest"
  shows "(\<forall>d. getitem response ''data'' = Inr d \<and> \<not> truthy d \<longrightarrow>
            sync_event_log_loop e fs cur mb c =
              Some (Inr mb, c\<lparr>client := rest, requests := requests c @
                  [(EVENT_LOG, \<lparr>path = ''/event/'',
                      params = (''date_updated__gte'', JStr fs) #
                               (if truthy cur then [(''_cursor'', cur)] else [])\<rparr>)]\<rparr>))
       \<and> (\<forall>err. getitem response ''data'' = Inl err \<longrightarrow>
            sync_event_log_loop e fs cur mb c =
              Some (Inl err, c\<lparr>client := rest, requests := requests c @
                  [(EVENT_LOG, \<lparr>path = ''/event/'',
                      params = (''date_updated__gte'', JStr fs) #
                               (if truthy cur then [(''_cursor'', cur)] else [])\<rparr>)]\<rparr>))"
  using assms
  by (subst sync_event_log_loop.simps, subst sync_event_log_loop.simps)
     (simp add: sync_event_log_page_def request_with_handling_def create_request_def
        create_get_request_def Let_def)

theorem empty_data_ends_loop_absent_data_raises_witness:
  "sync_event_log_loop (ex_env [] ex_noon) ''2024-01-01T11:00:00'' JNull
       ''2024-01-01T11:00:00.000000Z'' ex_empty_data_ctx
     = Some (Inr ''2024-01-01T11:00:00.000000Z'',
             ex_empty_data_ctx\<lparr>client := [], requests :=
               [(EVENT_LOG, \<lparr>path = ''/event/'',
                   params = [(''date_updated__gte'', JStr ''2024-01-01T11:00:00'')]\<rparr>)]\<rparr>)
   \<and> sync_event_log_loop (ex_env [] ex_noon) ''2024-01-01T11:00:00'' JNull
       ''2024-01-01T11:00:00.000000Z'' ex_no_data_ctx
     = Some (Inl KeyError,
             ex_no_data_ctx\<lparr>client := [], requests :=
               [(EVENT_LOG, \<lparr>path = ''/event/'',
                   params = [(''date_updated__gte'', JStr ''2024-01-01T11:00:00'')]\<rparr>)]\<rparr>)"
proof -
  have c1: "client ex_empty_data_ctx = Inr (JObj [(''data'', JArr []), (''cursor_next'', JNull)]) # []"
    by (simp add: ex_empty_data_ctx_def ex_ctx_def)
  have c2: "client ex_no_data_ctx = Inr (JObj [(''cursor_next'', JNull)]) # []"
    by (simp add: ex_no_data_ctx_def ex_ctx_def)
  have r1: "requests ex_empty_data_ctx = []" by (simp add: ex_empty_data_ctx_def ex_ctx_def)
  have r2: "requests ex_no_data_ctx = []" by (simp add: ex_no_data_ctx_def ex_ctx_def)
  from empty_data_ends_loop_absent_data_raises[OF c1, of "ex_env [] ex_noon"
      "''2024-01-01T11:00:00''" JNull "''2024-01-01T11:00:00.000000Z''"]
    empty_data_ends_loop_absent_data_raises[OF c2, of "ex_env [] ex_noon"
      "''2024-01-01T11:00:00''" JNull "''2024-01-01T11:00:00.000000Z''"]
  show ?thesis by (simp add: r1 r2)
qed

text \<open>
  Claim C8 as stated fails: on a response without a \<open>data\<close> field the event-log
  strategy ends with \<open>KeyError\<close>.
\<close>

theorem absent_data_raises_KeyError:
  "map_option fst (sync_event_log (ex_env [] ex_noon) ex_no_data_ctx) = Some (Some KeyError)"
  by (simp add: sync_event_log_def update_start_date_bookmark_def ex_defs ex_no_data_ctx_def
        ex_parse_def ex_bm_def sync_event_log_loop.simps sync_event_log_page_def
        request_with_handling_def create_request_def create_get_request_def bookmark_def
        ctx_op_defs Let_def ex_strftime_seconds)

section \<open>How far back a committed bookmark can lie\<close>

lemma paginated_sync_bookmark_ge:
  assumes "paginated_sync e sid c req start = (None, c')"
  shows "\<exists>m. get_bookmark c' (bookmark sid) = Some m \<and> start \<le> m"
proof -
  from paginated_sync_None[OF assms] obtain m cl script c1 where
    loop: "paginated_sync_loop e sid start script start c1 = (Inr m, cl)"
    and c': "c' = write_state (set_bookmark (clear_offsets cl sid) (bookmark sid) m)"
    by blast
  from paginated_sync_loop_Inr[OF loop] have
    "m = Max (set (start # concat (map (\<lambda>pg. bookmark_values (page_records e sid c1 pg)
                                          (BOOK_KEYS sid)) (pages_of script))))"
    by blast
  then have "start \<le> m" by (simp del: set_concat)
  moreover have "get_bookmark c' (bookmark sid) = Some m"
    using c' by (simp add: ctx_op_defs)
  ultimately show ?thesis by blast
qed

lemma basic_paginator_bookmark_ge:
  assumes "basic_paginator e sid c = (None, c')"
  shows "\<exists>m. get_bookmark c' (bookmark sid) = Some m
           \<and> fst (update_start_date_bookmark c (bookmark sid)) \<le> m"
  using assms
  by (auto simp: basic_paginator_def Let_def split: prod.splits dest: paginated_sync_bookmark_ge)

lemma sync_leads_bookmark_ge:
  assumes "sync_leads e c = (None, c')"
  shows "\<exists>m. get_bookmark c' (bookmark LEADS) = Some m
           \<and> fst (update_start_date_bookmark c (bookmark LEADS)) \<le> m"
  using assms
  by (auto simp: sync_leads_def Let_def split: prod.splits sum.splits
           dest: paginated_sync_bookmark_ge)

lemma sync_activities_bookmark_ge:
  assumes "sync_activities e c = (None, c')"
  shows "\<exists>m dt dt'. get_bookmark c' (bookmark ACTIVITIES) = Some m
           \<and> pendulum_parse e (fst (update_start_date_bookmark c (bookmark ACTIVITIES))) = Inr dt
           \<and> sub_timedelta dt (case activities_window_seconds c of None \<Rightarrow> 0 | Some n \<Rightarrow> n)
                 = Inr dt'
           \<and> strftime_seconds dt' \<le> m"
proof -
  obtain start c1 where u: "update_start_date_bookmark c (bookmark ACTIVITIES) = (start, c1)"
    by (cases "update_start_date_bookmark c (bookmark ACTIVITIES)")
  have w: "activities_window_seconds c1 = activities_window_seconds c"
    using update_start_date_bookmark_eq[OF u] by simp
  from assms u w show ?thesis
    by (auto simp: sync_activities_def Let_def split: prod.splits sum.splits
             dest: paginated_sync_bookmark_ge)
qed

lemma sync_event_log_bookmark_ge:
  assumes "sync_event_log e c = Some (None, c')"
  shows "\<exists>m t. get_bookmark c' (bookmark EVENT_LOG) = Some m
           \<and> sub_timedelta (utcnow e) 300 = Inr t
           \<and> min (strftime t) (fst (update_start_date_bookmark c (bookmark EVENT_LOG))) \<le> m"
proof -
  obtain start c1 where u: "update_start_date_bookmark c (bookmark EVENT_LOG) = (start, c1)"
    by (cases "update_start_date_bookmark c (bookmark EVENT_LOG)")
  from sync_event_log_None[OF assms u] obtain dt m c2 t where
    loop: "sync_event_log_loop e (strftime_seconds dt) JNull start c1 = Some (Inr m, c2)"
    and t: "sub_timedelta (utcnow e) 300 = Inr t"
    and c': "c' = set_bookmark c2 (bookmark EVENT_LOG) (min (strftime t) m)"
    by blast
  from sync_event_log_loop_max[OF loop] obtain new where
    "m = Max (set (start # bookmark_values new ''date_updated''))" by blast
  then have "start \<le> m" by simp
  then have "min (strftime t) start \<le> min (strftime t) m"
    by (simp add: min_le_iff_disj)
  moreover have "get_bookmark c' (bookmark EVENT_LOG) = Some (min (strftime t) m)"
    using c' by (simp add: ctx_op_defs)
  ultimately show ?thesis using t u by auto
qed

text \<open>
  Claim C3, as amended. A sync that completes commits a bookmark that is never earlier
  than: the bookmark in effect at the start of the sync (the start watermark), for custom
  fields, leads, tasks and users; the start watermark moved back by the look-back window
  and cut to seconds, the value the strategy hands to \<open>paginated_sync\<close>, for activities;
  the smaller of the start watermark and the clock reading minus five minutes, for the
  event log.
\<close>

theorem committed_bookmark_lower_bound:
  assumes "sync_fn e sid c = Some (None, c')"
  shows "\<exists>m. get_bookmark c' (bookmark sid) = Some m
     \<and> (sid \<noteq> ACTIVITIES \<and> sid \<noteq> EVENT_LOG \<longrightarrow>
           fst (update_start_date_bookmark c (bookmark sid)) \<le> m)
     \<and> (sid = ACTIVITIES \<longrightarrow>
           (\<exists>dt dt'. pendulum_parse e (fst (update_start_date_bookmark c (bookmark sid))) = Inr dt
              \<and> sub_timedelta dt (case activities_window_seconds c of None \<Rightarrow> 0 | Some n \<Rightarrow> n)
                   = Inr dt'
              \<and> strftime_seconds dt' \<le> m))
     \<and> (sid = EVENT_LOG \<longrightarrow>
           (\<exists>t. sub_timedelta (utcnow e) 300 = Inr t
              \<and> min (strftime t) (fst (update_start_date_bookmark c (bookmark sid))) \<le> m))"
proof (cases sid)
  case CUSTOM_FIELDS
  with assms basic_paginator_bookmark_ge[of e sid c c'] show ?thesis by auto
next
  case LEADS
  with assms sync_leads_bookmark_ge[of e c c'] show ?thesis by auto
next
  case ACTIVITIES
  with assms sync_activities_bookmark_ge[of e c c'] show ?thesis by auto
next
  case TASKS
  with assms basic_paginator_bookmark_ge[of e sid c c'] show ?thesis by auto
next
  case USERS
  with assms basic_paginator_bookmark_ge[of e sid c c'] show ?thesis by auto
next
  case EVENT_LOG
  with assms sync_event_log_bookmark_ge[of e c c'] show ?thesis by auto
qed

lemma ex_window: "sub_timedelta ex_2020_noon 3600 = Inr ex_2020_1100"
  by code_simp

lemma ex_strftime_seconds_2020: "strftime_seconds ex_2020_1100 = ''2020-01-01T11:00:00''"
  by code_simp

lemmas ex_activities_simps = sync_activities_def update_start_date_bookmark_def
  ex_activities_ctx_def ex_parse_def ex_paginated_simps ex_window ex_strftime_seconds_2020

text \<open>
  Claim C3 as stated fails for activities: with the bookmark at noon, a look-back window
  of one hour and no record emitted, the sync completes and commits 11:00, which is
  earlier than the bookmark in effect at its start.
\<close>

theorem activities_bookmark_moves_back:
  "fst (the (sync_fn (ex_env [] ex_noon) ACTIVITIES ex_activities_ctx)) = None
   \<and> get_bookmark ex_activities_ctx (bookmark ACTIVITIES) = Some ''2020-01-01T12:00:00.000000Z''
   \<and> emitted (snd (the (sync_fn (ex_env [] ex_noon) ACTIVITIES ex_activities_ctx))) = []
   \<and> get_bookmark (snd (the (sync_fn (ex_env [] ex_noon) ACTIVITIES ex_activities_ctx)))
        (bookmark ACTIVITIES) = Some ''2020-01-01T11:00:00''
   \<and> ''2020-01-01T11:00:00'' < ''2020-01-01T12:00:00.000000Z''"
  by (simp add: ex_activities_simps)

theorem committed_bookmark_lower_bound_witness:
  "fst (the (sync_fn (ex_env [Inr ex_page] ex_noon) TASKS (ex_ctx (ex_bm TASKS ex_start) None [])))
     = None
   \<and> ex_start \<le> the (get_bookmark (snd (the (sync_fn (ex_env [Inr ex_page] ex_noon) TASKS
        (ex_ctx (ex_bm TASKS ex_start) None [])))) (bookmark TASKS))
   \<and> fst (the (sync_fn (ex_env [] ex_noon) ACTIVITIES ex_activities_ctx)) = None
   \<and> ''2020-01-01T11:00:00'' \<le> the (get_bookmark (snd (the (sync_fn (ex_env [] ex_noon)
        ACTIVITIES ex_activities_ctx))) (bookmark ACTIVITIES))
   \<and> fst (the (sync_fn (ex_env [] ex_noon) EVENT_LOG ex_event_ctx)) = None
   \<and> ''2024-01-01T11:00:00.000000Z'' \<le> the (get_bookmark (snd (the (sync_fn (ex_env [] ex_noon)
        EVENT_LOG ex_event_ctx))) (bookmark EVENT_LOG))"
proof -
  let ?t = "sync_fn (ex_env [Inr ex_page] ex_noon) TASKS (ex_ctx (ex_bm TASKS ex_start) None [])"
  let ?a = "sync_fn (ex_env [] ex_noon) ACTIVITIES ex_activities_ctx"
  let ?v = "sync_fn (ex_env [] ex_noon) EVENT_LOG ex_event_ctx"
  have t: "?t = Some (None, snd (the ?t))"
    by (simp add: basic_paginator_def update_start_date_bookmark_def ex_paginated_simps)
  have a: "?a = Some (None, snd (the ?a))"
    by (simp add: ex_activities_simps)
  have v: "?v = Some (None, snd (the ?v))"
    using ex_event_run by simp
  have st: "fst (update_start_date_bookmark (ex_ctx (ex_bm TASKS ex_start) None []) (bookmark TASKS))
              = ex_start"
    by (simp add: update_start_date_bookmark_def ex_paginated_simps)
  have sa: "fst (update_start_date_bookmark ex_activities_ctx (bookmark ACTIVITIES))
              = ''2020-01-01T12:00:00.000000Z''"
    by (simp add: ex_activities_simps)
  have wa: "activities_window_seconds ex_activities_ctx = Some 3600"
    by (simp add: ex_activities_ctx_def ex_ctx_def)
  have sv: "fst (update_start_date_bookmark ex_event_ctx (bookmark EVENT_LOG))
              = ''2024-01-01T11:00:00.000000Z''"
    by (simp add: ex_event_simps)
  from committed_bookmark_lower_bound[OF t]
  have 1: "ex_start \<le> the (get_bookmark (snd (the ?t)) (bookmark TASKS))"
    unfolding st by auto
  from committed_bookmark_lower_bound[OF a]
  have 2: "''2020-01-01T11:00:00'' \<le> the (get_bookmark (snd (the ?a)) (bookmark ACTIVITIES))"
    unfolding sa wa
    by (auto simp: ex_env_def ex_parse_def ex_window ex_strftime_seconds_2020)
  from committed_bookmark_lower_bound[OF v]
  have 3: "''2024-01-01T11:00:00.000000Z''
             \<le> the (get_bookmark (snd (the ?v)) (bookmark EVENT_LOG))"
    unfolding sv
    by (auto simp: ex_env_def ex_five_minutes_ago ex_strftime)
  have "fst (the ?t) = None" by (subst t) simp
  moreover have "fst (the ?a) = None" by (subst a) simp
  moreover have "fst (the ?v) = None" by (subst v) simp
  ultimately show ?thesis using 1 2 3 by blast
qed

section \<open>The requests the strategies build\<close>

lemma sync_event_log_loop_requests:
  "sync_event_log_loop e fs cur mb c = Some (r, c') \<Longrightarrow>
     \<exists>n. n < length (client c) \<and> client c' = drop (Suc n) (client c)
        \<and> (\<forall>x \<in> set (take n (client c)). truthy (cursor_of x))
        \<and> requests c' = requests c @
             map (\<lambda>k. (EVENT_LOG, \<lparr>path = ''/event/'',
                     params = (''date_updated__gte'', JStr fs) #
                              (if truthy k then [(''_cursor'', k)] else [])\<rparr>))
                 (cur # map cursor_of (take n (client c)))"
proof (induction e fs cur mb c rule: sync_event_log_loop.induct)
  case (1 e fs cur mb c)
  let ?rq = "\<lambda>k. (EVENT_LOG, \<lparr>path = ''/event/'',
                     params = (''date_updated__gte'', JStr fs) #
                              (if truthy k then [(''_cursor'', k)] else [])\<rparr>)"
  from "1.prems" obtain r1 c1 where p: "sync_event_log_page e fs cur mb c = Some (r1, c1)"
    by (subst (asm) sync_event_log_loop.simps) (auto split: option.splits)
  from sync_event_log_page_frame[OF p] obtain resp where
    cl: "client c = resp # client c1"
    and rq: "requests c1 = requests c @ [?rq cur]"
    by blast
  have stop: ?case if "c' = c1"
  proof -
    have "0 < length (client c) \<and> client c' = drop (Suc 0) (client c)
        \<and> (\<forall>x \<in> set (take 0 (client c)). truthy (cursor_of x))
        \<and> requests c' = requests c @ map ?rq (cur # map cursor_of (take 0 (client c)))"
      using that cl rq by simp
    then show ?thesis by blast
  qed
  show ?case
  proof (cases r1)
    case (Inl err)
    with p "1.prems" have "c' = c1"
      by (subst (asm) sync_event_log_loop.simps) auto
    then show ?thesis by (rule stop)
  next
    case (Inr st)
    show ?thesis
    proof (cases st)
      case (Break m)
      with Inr p "1.prems" have "c' = c1"
        by (subst (asm) sync_event_log_loop.simps) auto
      then show ?thesis by (rule stop)
    next
      case (Continue cur' m)
      with Inr p "1.prems" have rest: "sync_event_log_loop e fs cur' m c1 = Some (r, c')"
        by (subst (asm) sync_event_log_loop.simps) auto
      from sync_event_log_page_Continue[OF p[unfolded Inr Continue]] cl
      have tr: "truthy cur'" and co: "cursor_of resp = cur'"
        by (auto simp: cursor_of_def)
      from "1.IH"[OF p[unfolded Inr Continue] refl refl refl rest] obtain n where
        n: "n < length (client c1)" "client c' = drop (Suc n) (client c1)"
           "\<forall>x \<in> set (take n (client c1)). truthy (cursor_of x)"
           "requests c' = requests c1 @ map ?rq (cur' # map cursor_of (take n (client c1)))"
        by blast
      have "Suc n < length (client c) \<and> client c' = drop (Suc (Suc n)) (client c)
        \<and> (\<forall>x \<in> set (take (Suc n) (client c)). truthy (cursor_of x))
        \<and> requests c' = requests c @ map ?rq (cur # map cursor_of (take (Suc n) (client c)))"
        using n cl rq tr co by simp
      then show ?thesis by blast
    qed
  qed
qed

lemma strftime_minutes_truncates:
  "strftime_minutes (dt\<lparr>second := s, microsecond := u\<rparr>) = strftime_minutes dt"
  by (simp add: strftime_minutes_def)

lemma strftime_seconds_truncates:
  "strftime_seconds (dt\<lparr>microsecond := u\<rparr>) = strftime_seconds dt"
  by (simp add: strftime_seconds_def strftime_minutes_def)

lemma sync_leads_calls:
  assumes "sync_leads e c = (r, c')"
    and "pendulum_parse e (fst (update_start_date_bookmark c (bookmark LEADS))) = Inr dt"
  shows "paginate_calls c' = paginate_calls c @
           [(LEADS,
             \<lparr>path = ''/lead/'',
              params = [(''query'', JStr (''date_updated>=\"'' @ strftime_minutes dt @
                                          ''\" sort:date_updated''))]\<rparr>,
             case get_offset c (LEADS, ''skip'') of None \<Rightarrow> 0 | Some n \<Rightarrow> n)]"
proof -
  obtain start c1 where u: "update_start_date_bookmark c (bookmark LEADS) = (start, c1)"
    by (cases "update_start_date_bookmark c (bookmark LEADS)")
  note f = update_start_date_bookmark_eq[OF u]
  from f have o: "get_offset c1 = get_offset c" by (simp add: get_offset_def fun_eq_iff)
  from assms u have "paginated_sync e LEADS c1
      (create_request LEADS (Some [(''query'', JStr (''date_updated>=\"'' @ strftime_minutes dt @
                                          ''\" sort:date_updated''))])) start = (r, c')"
    by (simp add: sync_leads_def Let_def)
  from paginated_sync_calls[OF this] f o show ?thesis
    by (simp add: create_request_def create_get_request_def)
qed

lemma sync_activities_calls:
  assumes "sync_activities e c = (r, c')"
    and "pendulum_parse e (fst (update_start_date_bookmark c (bookmark ACTIVITIES))) = Inr dt"
    and "sub_timedelta dt (case activities_window_seconds c of None \<Rightarrow> 0 | Some n \<Rightarrow> n) = Inr dt'"
  shows "paginate_calls c' = paginate_calls c @
           [(ACTIVITIES,
             \<lparr>path = ''/activity/'',
              params = [(''date_created__gt'', JStr (strftime_seconds dt'))]\<rparr>,
             case get_offset c (ACTIVITIES, ''skip'') of None \<Rightarrow> 0 | Some n \<Rightarrow> n)]"
proof -
  obtain start c1 where u: "update_start_date_bookmark c (bookmark ACTIVITIES) = (start, c1)"
    by (cases "update_start_date_bookmark c (bookmark ACTIVITIES)")
  note f = update_start_date_bookmark_eq[OF u]
  from f have o: "get_offset c1 = get_offset c" by (simp add: get_offset_def fun_eq_iff)
  from f have w: "activities_window_seconds c1 = activities_window_seconds c" by simp
  from assms u w have "paginated_sync e ACTIVITIES c1
      (create_request ACTIVITIES (Some [(''date_created__gt'', JStr (strftime_seconds dt'))]))
      (strftime_seconds dt') = (r, c')"
    by (simp add: sync_activities_def Let_def)
  from paginated_sync_calls[OF this] f o show ?thesis
    by (simp add: create_request_def create_get_request_def)
qed

lemma sync_event_log_requests:
  assumes "sync_event_log e c = Some (r, c')"
    and "pendulum_parse e (fst (update_start_date_bookmark c (bookmark EVENT_LOG))) = Inr dt"
  shows "\<exists>n. n < length (client c) \<and> client c' = drop (Suc n) (client c)
        \<and> requests c' = requests c @
             (EVENT_LOG, \<lparr>path = ''/event/'',
                params = [(''date_updated__gte'', JStr (strftime_seconds dt))]\<rparr>) #
             map (\<lambda>x. (EVENT_LOG, \<lparr>path = ''/event/'',
                     params = [(''date_updated__gte'', JStr (strftime_seconds dt)),
                               (''_cursor'', cursor_of x)]\<rparr>))
                 (take n (client c))"
proof -
  obtain start c1 where u: "update_start_date_bookmark c (bookmark EVENT_LOG) = (start, c1)"
    by (cases "update_start_date_bookmark c (bookmark EVENT_LOG)")
  note f = update_start_date_bookmark_eq[OF u]
  from assms u obtain r2 c2 where
    loop: "sync_event_log_loop e (strftime_seconds dt) JNull start c1 = Some (r2, c2)"
    and c': "client c' = client c2 \<and> requests c' = requests c2"
    by (auto simp: sync_event_log_def Let_def set_bookmark_def
             split: option.splits sum.splits prod.splits)
  from sync_event_log_loop_requests[OF loop] obtain n where
    n: "n < length (client c1)" "client c2 = drop (Suc n) (client c1)"
       "\<forall>x \<in> set (take n (client c1)). truthy (cursor_of x)"
       "requests c2 = requests c1 @
             map (\<lambda>k. (EVENT_LOG, \<lparr>path = ''/event/'',
                     params = (''date_updated__gte'', JStr (strftime_seconds dt)) #
                              (if truthy k then [(''_cursor'', k)] else [])\<rparr>))
                 (JNull # map cursor_of (take n (client c1)))"
    by blast
  have "map (\<lambda>k. (EVENT_LOG, \<lparr>path = ''/event/'',
                     params = (''date_updated__gte'', JStr (strftime_seconds dt)) #
                              (if truthy k then [(''_cursor'', k)] else [])\<rparr>))
            (map cursor_of (take n (client c1)))
        = map (\<lambda>x. (EVENT_LOG, \<lparr>path = ''/event/'',
                     params = [(''date_updated__gte'', JStr (strftime_seconds dt)),
                               (''_cursor'', cursor_of x)]\<rparr>))
              (take n (client c1))"
    using n(3) by (simp add: comp_def)
  with n c' f show ?thesis by (intro exI[of _ n]) simp
qed

text \<open>
  Claim C9. The request of the leads strategy carries the single parameter \<open>query\<close>
  with the string \<open>date_updated>="T" sort:date_updated\<close>, \<open>T\<close> the parsed start
  watermark printed to the minute; the request of the activities strategy carries the
  single parameter \<open>date_created__gt\<close>, the start watermark moved back by the look-back
  window and printed to the second; every request of the event-log strategy carries
  \<open>date_updated__gte\<close>, the start watermark printed to the second, the first request
  nothing else, and each later request also \<open>_cursor\<close> with the \<open>cursor_next\<close> of the
  response before it. Printing to the minute ignores seconds and microseconds, printing
  to the second ignores microseconds.
\<close>

theorem request_parameter_formats:
  "(sync_leads e c = (r1, c1)
      \<and> pendulum_parse e (fst (update_start_date_bookmark c (bookmark LEADS))) = Inr dt
    \<longrightarrow> paginate_calls c1 = paginate_calls c @
          [(LEADS,
            \<lparr>path = ''/lead/'',
             params = [(''query'', JStr (''date_updated>=\"'' @ strftime_minutes dt @
                                         ''\" sort:date_updated''))]\<rparr>,
            case get_offset c (LEADS, ''skip'') of None \<Rightarrow> 0 | Some n \<Rightarrow> n)])
   \<and> (sync_activities e c = (r2, c2)
      \<and> pendulum_parse e (fst (update_start_date_bookmark c (bookmark ACTIVITIES))) = Inr dt
      \<and> sub_timedelta dt (case activities_window_seconds c of None \<Rightarrow> 0 | Some n \<Rightarrow> n) = Inr dt'
    \<longrightarrow> paginate_calls c2 = paginate_calls c @
          [(ACTIVITIES,
            \<lparr>path = ''/activity/'',
             params = [(''date_created__gt'', JStr (strftime_seconds dt'))]\<rparr>,
            case get_offset c (ACTIVITIES, ''skip'') of None \<Rightarrow> 0 | Some n \<Rightarrow> n)])
   \<and> (sync_event_log e c = Some (r3, c3)
      \<and> pendulum_parse e (fst (update_start_date_bookmark c (bookmark EVENT_LOG))) = Inr dt
    \<longrightarrow> (\<exists>n. n < length (client c) \<and> client c3 = drop (Suc n) (client c)
          \<and> requests c3 = requests c @
               (EVENT_LOG, \<lparr>path = ''/event/'',
                  params = [(''date_updated__gte'', JStr (strftime_seconds dt))]\<rparr>) #
               map (\<lambda>x. (EVENT_LOG, \<lparr>path = ''/event/'',
                       params = [(''date_updated__gte'', JStr (strftime_seconds dt)),
                                 (''_cursor'', cursor_of x)]\<rparr>))
                   (take n (client c))))
   \<and> strftime_minutes (dt\<lparr>second := s, microsecond := u\<rparr>) = strftime_minutes dt
   \<and> strftime_seconds (dt\<lparr>microsecond := u\<rparr>) = strftime_seconds dt"
proof -
  have 1: "sync_leads e c = (r1, c1)
      \<and> pendulum_parse e (fst (update_start_date_bookmark c (bookmark LEADS))) = Inr dt
    \<longrightarrow> paginate_calls c1 = paginate_calls c @
          [(LEADS,
            \<lparr>path = ''/lead/'',
             params = [(''query'', JStr (''date_updated>=\"'' @ strftime_minutes dt @
                                         ''\" sort:date_updated''))]\<rparr>,
            case get_offset c (LEADS, ''skip'') of None \<Rightarrow> 0 | Some n \<Rightarrow> n)]"
    using sync_leads_calls[of e c r1 c1 dt] by blast
  have 2: "sync_activities e c = (r2, c2)
      \<and> pendulum_parse e (fst (update_start_date_bookmark c (bookmark ACTIVITIES))) = Inr dt
      \<and> sub_timedelta dt (case activities_window_seconds c of None \<Rightarrow> 0 | Some n \<Rightarrow> n) = Inr dt'
    \<longrightarrow> paginate_calls c2 = paginate_calls c @
          [(ACTIVITIES,
            \<lparr>path = ''/activity/'',
             params = [(''date_created__gt'', JStr (strftime_seconds dt'))]\<rparr>,
            case get_offset c (ACTIVITIES, ''skip'') of None \<Rightarrow> 0 | Some n \<Rightarrow> n)]"
    using sync_activities_calls[of e c r2 c2 dt dt'] by blast
  have 3: "sync_event_log e c = Some (r3, c3)
      \<and> pendulum_parse e (fst (update_start_date_bookmark c (bookmark EVENT_LOG))) = Inr dt
    \<longrightarrow> (\<exists>n. n < length (client c) \<and> client c3 = drop (Suc n) (client c)
          \<and> requests c3 = requests c @
               (EVENT_LOG, \<lparr>path = ''/event/'',
                  params = [(''date_updated__gte'', JStr (strftime_seconds dt))]\<rparr>) #
               map (\<lambda>x. (EVENT_LOG, \<lparr>path = ''/event/'',
                       params = [(''date_updated__gte'', JStr (strftime_seconds dt)),
                                 (''_cursor'', cursor_of x)]\<rparr>))
                   (take n (client c)))"
    using sync_event_log_requests[of e c r3 c3 dt] by blast
  from 1 2 3 show ?thesis
    by (simp only: strftime_minutes_truncates strftime_seconds_truncates simp_thms)
qed

lemma ex_strftime_minutes: "strftime_minutes ex_2020_midnight = ''2020-01-01T00:00''"
  by code_simp

lemmas ex_cursor_simps = sync_event_log_def update_start_date_bookmark_def ex_defs
  ex_cursor_ctx_def ex_event_def ex_parse_def ex_dumps_def ex_bm_def
  sync_event_log_loop.simps sync_event_log_page_def request_with_handling_def
  create_request_def create_get_request_def format_dts_def bookmark_def
  ctx_op_defs Let_def ex_five_minutes_ago ex_strftime ex_strftime_seconds

theorem request_parameter_formats_witness:
  "paginate_calls (snd (sync_leads (ex_env [] ex_noon) ex_leads_ctx)) =
     [(LEADS, \<lparr>path = ''/lead/'',
         params = [(''query'', JStr ''date_updated>=\"2020-01-01T00:00\" sort:date_updated'')]\<rparr>,
       0)]
   \<and> paginate_calls (snd (sync_activities (ex_env [] ex_noon) ex_activities_ctx)) =
     [(ACTIVITIES, \<lparr>path = ''/activity/'',
         params = [(''date_created__gt'', JStr ''2020-01-01T11:00:00'')]\<rparr>, 0)]
   \<and> requests (snd (the (sync_event_log (ex_env [] ex_noon) ex_cursor_ctx))) =
     [(EVENT_LOG, \<lparr>path = ''/event/'',
         params = [(''date_updated__gte'', JStr ''2024-01-01T11:00:00'')]\<rparr>),
      (EVENT_LOG, \<lparr>path = ''/event/'',
         params = [(''date_updated__gte'', JStr ''2024-01-01T11:00:00''),
                   (''_cursor'', JStr ''abc'')]\<rparr>)]"
proof -
  let ?e = "ex_env [] ex_noon"
  let ?l = "sync_leads ?e ex_leads_ctx"
  let ?a = "sync_activities ?e ex_activities_ctx"
  let ?v = "sync_event_log ?e ex_cursor_ctx"
  have pl: "pendulum_parse ?e (fst (update_start_date_bookmark ex_leads_ctx (bookmark LEADS)))
              = Inr ex_2020_midnight"
    by (simp add: update_start_date_bookmark_def ex_leads_ctx_def ex_parse_def ex_paginated_simps)
  have pa: "pendulum_parse ?e (fst (update_start_date_bookmark ex_activities_ctx
              (bookmark ACTIVITIES))) = Inr ex_2020_noon"
    by (simp add: ex_activities_simps)
  have wa: "sub_timedelta ex_2020_noon
              (case activities_window_seconds ex_activities_ctx of None \<Rightarrow> 0 | Some n \<Rightarrow> n)
              = Inr ex_2020_1100"
    by (simp add: ex_activities_ctx_def ex_ctx_def ex_window)
  have pv: "pendulum_parse ?e (fst (update_start_date_bookmark ex_cursor_ctx (bookmark EVENT_LOG)))
              = Inr ex_1100"
    by (simp add: ex_cursor_simps)
  have v: "?v = Some (None, snd (the ?v))"
    by (simp add: ex_cursor_simps)
  have cv: "client (snd (the ?v)) = []"
    by (simp add: ex_cursor_simps)
  from request_parameter_formats[where e = ?e and c = ex_leads_ctx and ?r1.0 = "fst ?l"
      and ?c1.0 = "snd ?l" and dt = ex_2020_midnight] pl
  have 1: "paginate_calls (snd ?l) = paginate_calls ex_leads_ctx @
          [(LEADS,
            \<lparr>path = ''/lead/'',
             params = [(''query'', JStr (''date_updated>=\"'' @ strftime_minutes ex_2020_midnight @
                                         ''\" sort:date_updated''))]\<rparr>,
            case get_offset ex_leads_ctx (LEADS, ''skip'') of None \<Rightarrow> 0 | Some n \<Rightarrow> n)]"
    by simp
  from request_parameter_formats[where e = ?e and c = ex_activities_ctx and ?r2.0 = "fst ?a"
      and ?c2.0 = "snd ?a" and dt = ex_2020_noon and dt' = ex_2020_1100] pa wa
  have 2: "paginate_calls (snd ?a) = paginate_calls ex_activities_ctx @
          [(ACTIVITIES,
            \<lparr>path = ''/activity/'',
             params = [(''date_created__gt'', JStr (strftime_seconds ex_2020_1100))]\<rparr>,
            case get_offset ex_activities_ctx (ACTIVITIES, ''skip'') of None \<Rightarrow> 0 | Some n \<Rightarrow> n)]"
    by simp
  from request_parameter_formats[where e = ?e and c = ex_cursor_ctx and ?r3.0 = None
      and ?c3.0 = "snd (the ?v)" and dt = ex_1100] pv v
  obtain n where n: "n < length (client ex_cursor_ctx)"
    "client (snd (the ?v)) = drop (Suc n) (client ex_cursor_ctx)"
    and rq: "requests (snd (the ?v)) = requests ex_cursor_ctx @
               (EVENT_LOG, \<lparr>path = ''/event/'',
                  params = [(''date_updated__gte'', JStr (strftime_seconds ex_1100))]\<rparr>) #
               map (\<lambda>x. (EVENT_LOG, \<lparr>path = ''/event/'',
                       params = [(''date_updated__gte'', JStr (strftime_seconds ex_1100)),
                                 (''_cursor'', cursor_of x)]\<rparr>))
                   (take n (client ex_cursor_ctx))"
    by blast
  from n cv have "n = 1"
    by (cases n) (auto simp: ex_cursor_ctx_def ex_ctx_def)
  with rq have 3: "requests (snd (the ?v)) =
     [(EVENT_LOG, \<lparr>path = ''/event/'',
         params = [(''date_updated__gte'', JStr ''2024-01-01T11:00:00'')]\<rparr>),
      (EVENT_LOG, \<lparr>path = ''/event/'',
         params = [(''date_updated__gte'', JStr ''2024-01-01T11:00:00''),
                   (''_cursor'', JStr ''abc'')]\<rparr>)]"
    by (simp add: ex_cursor_ctx_def ex_ctx_def ex_strftime_seconds cursor_of_def)
  from 1 2 3 show ?thesis
    by (simp add: ex_leads_ctx_def ex_activities_ctx_def ex_ctx_def ex_state_def get_offset_def
          ex_strftime_minutes ex_strftime_seconds_2020)
qed

section \<open>Records without their bookmark field\<close>

lemma lacks_str_field: "lacks key r \<Longrightarrow> str_field r key = Inl KeyError"
  by (cases r) simp_all

lemma lacks_getitem: "lacks key r \<Longrightarrow> getitem r key = Inl KeyError"
  by (cases r) simp_all

lemma str_if_present_cases:
  "str_if_present key r \<Longrightarrow> lacks key r \<or> has_str_field key r"
  by (cases r) (auto simp: has_str_field_def split: option.splits json.splits)

lemma to_write_KeyError:
  "list_all (str_if_present key) recs \<Longrightarrow> \<exists>r \<in> set recs. lacks key r \<Longrightarrow>
     to_write recs key start = Inl KeyError"
proof (induction recs)
  case Nil
  then show ?case by simp
next
  case (Cons r recs)
  show ?case
  proof (cases "lacks key r")
    case True
    then show ?thesis by (simp add: lacks_str_field del: str_field.simps)
  next
    case False
    with Cons.prems have "has_str_field key r" and "\<exists>r \<in> set recs. lacks key r"
      using str_if_present_cases[of key r] by auto
    with Cons show ?thesis
      by (auto simp: has_str_field_def simp del: str_field.simps split: sum.splits)
  qed
qed

lemma new_max_bookmark_KeyError:
  "list_all (str_if_present key) recs \<Longrightarrow> \<exists>r \<in> set recs. lacks key r \<Longrightarrow>
     new_max_bookmark mb recs key = Inl KeyError"
proof (induction recs arbitrary: mb)
  case Nil
  then show ?case by simp
next
  case (Cons r recs)
  show ?case
  proof (cases "lacks key r")
    case True
    then show ?thesis by (simp add: lacks_str_field del: str_field.simps)
  next
    case False
    with Cons.prems have "has_str_field key r" and "\<exists>r \<in> set recs. lacks key r"
      using str_if_present_cases[of key r] by auto
    with Cons show ?thesis
      by (auto simp: has_str_field_def simp del: str_field.simps split: sum.splits)
  qed
qed

lemma paginated_sync_page_KeyError:
  assumes "list_all (str_if_present (BOOK_KEYS sid)) (page_records e sid c pg)"
    and "\<exists>r \<in> set (page_records e sid c pg). lacks (BOOK_KEYS sid) r"
  shows "paginated_sync_page e sid start pg mb c = (Inl KeyError, c)"
  using to_write_KeyError[OF assms, of start]
  by (simp add: paginated_sync_page_def page_records_def Let_def)

lemma paginated_sync_page_total:
  assumes "list_all (has_str_field (BOOK_KEYS sid)) (page_records e sid c pg)"
  shows "\<exists>m c'. paginated_sync_page e sid start pg mb c = (Inr m, c')"
  using to_write_total[OF assms, of start] new_max_bookmark_total[OF assms, of mb]
  by (auto simp: paginated_sync_page_def page_records_def Let_def)

lemma paginated_sync_loop_total:
  "\<forall>p \<in> set pages. list_all (has_str_field (BOOK_KEYS sid)) (page_records e sid c p) \<Longrightarrow>
     \<exists>m c'. paginated_sync_loop e sid start (map Inr pages) mb c = (Inr m, c')"
proof (induction pages arbitrary: mb c)
  case Nil
  then show ?case by simp
next
  case (Cons p pages)
  from Cons.prems have "list_all (has_str_field (BOOK_KEYS sid)) (page_records e sid c p)"
    by simp
  from paginated_sync_page_total[OF this] obtain m1 c1 where
    p: "paginated_sync_page e sid start p mb c = (Inr m1, c1)" by blast
  from paginated_sync_page_frame[OF p] have "schema_dt_paths c1 = schema_dt_paths c" by simp
  then have "\<And>q. page_records e sid c1 q = page_records e sid c q"
    by (rule page_records_cong)
  with Cons.prems have "\<forall>q \<in> set pages. list_all (has_str_field (BOOK_KEYS sid)) (page_records e sid c1 q)"
    by simp
  from Cons.IH[OF this] p show ?case by simp
qed

lemma paginated_sync_loop_KeyError:
  assumes ok: "\<forall>p \<in> set pages. list_all (has_str_field (BOOK_KEYS sid)) (page_records e sid c p)"
    and typed: "list_all (str_if_present (BOOK_KEYS sid)) (page_records e sid c pg)"
    and missing: "\<exists>r \<in> set (page_records e sid c pg). lacks (BOOK_KEYS sid) r"
  shows "\<exists>c'. paginated_sync_loop e sid start (map Inr pages @ Inr pg # rest) mb c
                 = (Inl KeyError, c')
              \<and> bookmarks (state c') = bookmarks (state c)"
proof -
  from paginated_sync_loop_total[OF ok] obtain m1 c1 where
    pre: "paginated_sync_loop e sid start (map Inr pages) mb c = (Inr m1, c1)" by blast
  note f = paginated_sync_loop_frame[OF pre]
  from f have pr: "page_records e sid c1 pg = page_records e sid c pg"
    by (intro page_records_cong) simp
  from paginated_sync_page_KeyError[of sid e c1 pg start m1] typed missing pr
  have "paginated_sync_page e sid start pg m1 c1 = (Inl KeyError, c1)" by simp
  with pre have "paginated_sync_loop e sid start (map Inr pages @ Inr pg # rest) mb c
                 = (Inl KeyError, c1)"
    by (simp add: paginated_sync_loop_append)
  with f show ?thesis by simp
qed

lemma paginated_sync_KeyError:
  assumes script: "paginate e sid req (case get_offset c (sid, ''skip'') of None \<Rightarrow> 0 | Some n \<Rightarrow> n)
                     = map Inr pages @ Inr pg # rest"
    and ok: "\<forall>p \<in> set pages. list_all (has_str_field (BOOK_KEYS sid)) (page_records e sid c p)"
    and typed: "list_all (str_if_present (BOOK_KEYS sid)) (page_records e sid c pg)"
    and missing: "\<exists>r \<in> set (page_records e sid c pg). lacks (BOOK_KEYS sid) r"
  shows "\<exists>c'. paginated_sync e sid c req start = (Some KeyError, c')
              \<and> bookmarks (state c') = bookmarks (state c)"
proof -
  let ?skip = "case get_offset c (sid, ''skip'') of None \<Rightarrow> 0 | Some n \<Rightarrow> n"
  let ?c1 = "c\<lparr>paginate_calls := paginate_calls c @ [(sid, req, ?skip)]\<rparr>"
  have pr: "\<And>q. page_records e sid ?c1 q = page_records e sid c q"
    by (intro page_records_cong) simp
  from paginated_sync_loop_KeyError[of pages sid e ?c1 pg start rest start]
    ok typed missing pr
  obtain c' where "paginated_sync_loop e sid start (map Inr pages @ Inr pg # rest) start ?c1
                 = (Inl KeyError, c')"
    and "bookmarks (state c') = bookmarks (state c)"
    by auto
  with script show ?thesis
    by (simp add: paginated_sync_def Let_def)
qed

section \<open>Events without their fields\<close>

lemma str_if_present_obj: "str_if_present key r \<Longrightarrow> \<exists>kvs. r = JObj kvs"
  by (cases r) simp_all

lemma dump_events_KeyError:
  "list_all (str_if_present key) events \<Longrightarrow>
   \<exists>ev \<in> set events. lacks ''data'' ev \<or> lacks ''previous_data'' ev \<Longrightarrow>
     dump_events e events = Inl KeyError"
proof (induction events)
  case Nil
  then show ?case by simp
next
  case (Cons ev events)
  from Cons.prems obtain kvs where ev: "ev = JObj kvs"
    using str_if_present_obj[of key ev] by auto
  show ?case
  proof (cases "lacks ''data'' ev \<or> lacks ''previous_data'' ev")
    case True
    then show ?thesis
      by (auto simp: ev update_conv' split: option.splits)
  next
    case False
    with Cons.prems have "\<exists>ev \<in> set events. lacks ''data'' ev \<or> lacks ''previous_data'' ev"
      by auto
    with Cons have "dump_events e events = Inl KeyError" by simp
    then show ?thesis
      by (auto simp: ev split: option.splits sum.splits)
  qed
qed

lemma dump_events_Inr:
  "list_all (str_if_present key) events \<Longrightarrow>
   \<not> (\<exists>ev \<in> set events. lacks ''data'' ev \<or> lacks ''previous_data'' ev) \<Longrightarrow>
     \<exists>events'. dump_events e events = Inr events'
        \<and> map (\<lambda>ev. str_field ev ''date_updated'') events'
            = map (\<lambda>ev. str_field ev ''date_updated'') events"
proof (induction events)
  case Nil
  then show ?case by simp
next
  case (Cons ev events)
  from Cons.prems obtain kvs where ev: "ev = JObj kvs"
    using str_if_present_obj[of key ev] by auto
  from Cons.prems have d: "map_of kvs ''data'' \<noteq> None" and pd: "map_of kvs ''previous_data'' \<noteq> None"
    by (auto simp: ev)
  from Cons obtain events' where
    IH: "dump_events e events = Inr events'"
      "map (\<lambda>ev. str_field ev ''date_updated'') events'
            = map (\<lambda>ev. str_field ev ''date_updated'') events"
    by auto
  from d pd IH show ?case
    by (auto simp: ev update_conv' split: option.splits)
qed

lemma new_max_bookmark_cong:
  "map (\<lambda>r. str_field r key) xs = map (\<lambda>r. str_field r key) ys \<Longrightarrow>
     new_max_bookmark mb xs key = new_max_bookmark mb ys key"
proof (induction xs arbitrary: ys mb)
  case Nil
  then show ?case by simp
next
  case (Cons x xs)
  then obtain y ys' where ys: "ys = y # ys'" by (cases ys) auto
  with Cons.prems have h: "str_field x key = str_field y key"
    and t: "map (\<lambda>r. str_field r key) xs = map (\<lambda>r. str_field r key) ys'"
    by simp_all
  from Cons.IH[OF t] h show ?case
    by (simp add: ys del: str_field.simps split: sum.splits)
qed

lemma sync_event_log_page_KeyError:
  assumes cl: "client c = Inr response # rest"
    and data: "getitem response ''data'' = Inr (JArr raw)" and ne: "raw \<noteq> []"
    and typed: "list_all (str_if_present ''date_updated'') (format_dts e EVENT_LOG c raw)"
    and missing: "\<exists>ev \<in> set (format_dts e EVENT_LOG c raw).
                    lacks ''data'' ev \<or> lacks ''previous_data'' ev \<or> lacks ''date_updated'' ev"
  shows "\<exists>c'. sync_event_log_page e fs cur mb c = Some (Inl KeyError, c') \<and> state c' = state c"
proof -
  let ?events = "format_dts e EVENT_LOG c raw"
  let ?c1 = "c\<lparr>client := rest, requests := requests c @
      [(EVENT_LOG, create_request EVENT_LOG (Some
         (if truthy cur then [(''date_updated__gte'', JStr fs)] @ [(''_cursor'', cur)]
          else [(''date_updated__gte'', JStr fs)])))]\<rparr>"
  have fd: "format_dts e EVENT_LOG ?c1 raw = ?events" by (simp add: format_dts_def)
  show ?thesis
  proof (cases "\<exists>ev \<in> set ?events. lacks ''data'' ev \<or> lacks ''previous_data'' ev")
    case True
    from dump_events_KeyError[OF typed True] have "dump_events e ?events = Inl KeyError" .
    with cl data ne fd show ?thesis
      by (simp add: sync_event_log_page_def request_with_handling_def Let_def)
  next
    case False
    from dump_events_Inr[OF typed False] obtain events' where
      d: "dump_events e ?events = Inr events'"
      and m: "map (\<lambda>ev. str_field ev ''date_updated'') events'
            = map (\<lambda>ev. str_field ev ''date_updated'') ?events"
      by blast
    from False missing have "\<exists>ev \<in> set ?events. lacks ''date_updated'' ev" by blast
    from new_max_bookmark_KeyError[OF typed this]
    have "new_max_bookmark mb ?events ''date_updated'' = Inl KeyError" .
    with new_max_bookmark_cong[OF m] have
      "new_max_bookmark mb events' ''date_updated'' = Inl KeyError" by simp
    with cl data ne fd d show ?thesis
      by (simp add: sync_event_log_page_def request_with_handling_def Let_def
            write_records_def metrics_def)
  qed
qed

lemma sync_event_log_page_client:
  "sync_event_log_page e fs cur mb (c\<lparr>client := x # zs\<rparr>) =
     map_option (\<lambda>(r, c'). (r, c'\<lparr>client := zs\<rparr>))
       (sync_event_log_page e fs cur mb (c\<lparr>client := [x]\<rparr>))"
  by (simp add: sync_event_log_page_def request_with_handling_def Let_def format_dts_def
        write_records_def metrics_def
      split: sum.splits json.splits)

lemma sync_event_log_page_Some:
  "client c = x # zs \<Longrightarrow> \<exists>r c'. sync_event_log_page e fs cur mb c = Some (r, c')"
  by (auto simp: sync_event_log_page_def request_with_handling_def Let_def
           split: sum.splits json.splits)

lemma sync_event_log_loop_prefix:
  "sync_event_log_loop e fs cur mb (c\<lparr>client := pre\<rparr>) = None \<Longrightarrow>
     \<exists>cur' mb' c''. state c'' = state c \<and> schema_dt_paths c'' = schema_dt_paths c
        \<and> (\<forall>ys. sync_event_log_loop e fs cur mb (c\<lparr>client := pre @ ys\<rparr>)
                  = sync_event_log_loop e fs cur' mb' (c''\<lparr>client := ys\<rparr>))"
proof (induction pre arbitrary: cur mb c)
  case Nil
  have "\<forall>ys. sync_event_log_loop e fs cur mb (c\<lparr>client := [] @ ys\<rparr>)
                  = sync_event_log_loop e fs cur mb (c\<lparr>client := ys\<rparr>)" by simp
  then show ?case by blast
next
  case (Cons x pre)
  have "client (c\<lparr>client := [x]\<rparr>) = x # []" by simp
  from sync_event_log_page_Some[OF this, of e fs cur mb]
  obtain r0 c0 where p0: "sync_event_log_page e fs cur mb (c\<lparr>client := [x]\<rparr>) = Some (r0, c0)"
    by blast
  have pz: "sync_event_log_page e fs cur mb (c\<lparr>client := x # zs\<rparr>)
              = Some (r0, c0\<lparr>client := zs\<rparr>)" for zs
    by (simp add: sync_event_log_page_client[where c = c and x = x and zs = zs] p0)
  from sync_event_log_page_frame[OF p0] have f0: "state c0 = state c"
    "schema_dt_paths c0 = schema_dt_paths c" by simp_all
  from Cons.prems pz[of pre] obtain cur1 mb1 where
    r0: "r0 = Inr (Continue cur1 mb1)"
    and rest: "sync_event_log_loop e fs cur1 mb1 (c0\<lparr>client := pre\<rparr>) = None"
    by (subst (asm) sync_event_log_loop.simps) (auto split: sum.splits step.splits)
  from Cons.IH[OF rest] obtain cur' mb' c'' where
    st: "state c'' = state c0" "schema_dt_paths c'' = schema_dt_paths c0"
    and all: "\<forall>ys. sync_event_log_loop e fs cur1 mb1 (c0\<lparr>client := pre @ ys\<rparr>)
                  = sync_event_log_loop e fs cur' mb' (c''\<lparr>client := ys\<rparr>)"
    by blast
  have "sync_event_log_loop e fs cur mb (c\<lparr>client := (x # pre) @ ys\<rparr>)
          = sync_event_log_loop e fs cur' mb' (c''\<lparr>client := ys\<rparr>)" for ys
  proof -
    have "sync_event_log_loop e fs cur mb (c\<lparr>client := (x # pre) @ ys\<rparr>)
            = sync_event_log_loop e fs cur1 mb1 (c0\<lparr>client := pre @ ys\<rparr>)"
      by (subst sync_event_log_loop.simps) (simp add: pz[of "pre @ ys"] r0)
    with all show ?thesis by simp
  qed
  with st f0 show ?case by (metis (no_types))
qed

lemma sync_event_log_loop_KeyError:
  assumes cl: "client c = pre @ Inr response # rest"
    and reach: "sync_event_log_loop e fs cur mb (c\<lparr>client := pre\<rparr>) = None"
    and data: "getitem response ''data'' = Inr (JArr raw)" and ne: "raw \<noteq> []"
    and typed: "list_all (str_if_present ''date_updated'') (format_dts e EVENT_LOG c raw)"
    and missing: "\<exists>ev \<in> set (format_dts e EVENT_LOG c raw).
                    lacks ''data'' ev \<or> lacks ''previous_data'' ev \<or> lacks ''date_updated'' ev"
  shows "\<exists>c'. sync_event_log_loop e fs cur mb c = Some (Inl KeyError, c') \<and> state c' = state c"
proof -
  from sync_event_log_loop_prefix[OF reach] obtain cur' mb' c'' where
    st: "state c'' = state c" "schema_dt_paths c'' = schema_dt_paths c"
    and all: "\<And>ys. sync_event_log_loop e fs cur mb (c\<lparr>client := pre @ ys\<rparr>)
                  = sync_event_log_loop e fs cur' mb' (c''\<lparr>client := ys\<rparr>)"
    by blast
  let ?d = "c''\<lparr>client := Inr response # rest\<rparr>"
  have c: "c = c\<lparr>client := pre @ Inr response # rest\<rparr>" using cl by simp
  have fd: "format_dts e EVENT_LOG ?d raw = format_dts e EVENT_LOG c raw"
    using st by (simp add: format_dts_def)
  have "client ?d = Inr response # rest" by simp
  from sync_event_log_page_KeyError[OF this data ne, of e fs cur' mb'] typed missing fd
  obtain c' where p: "sync_event_log_page e fs cur' mb' ?d = Some (Inl KeyError, c')"
    and s: "state c' = state ?d" by auto
  have "sync_event_log_loop e fs cur' mb' ?d = Some (Inl KeyError, c')"
    by (subst sync_event_log_loop.simps) (simp add: p)
  with all[of "Inr response # rest"] c have "sync_event_log_loop e fs cur mb c = Some (Inl KeyError, c')"
    by simp
  with s st show ?thesis by simp
qed

lemma sync_event_log_KeyError:
  assumes u: "update_start_date_bookmark c (bookmark EVENT_LOG) = (start, c1)"
    and parse: "pendulum_parse e start = Inr dt"
    and cl: "client c = pre @ Inr response # rest"
    and reach: "sync_event_log_loop e (strftime_seconds dt) JNull start (c1\<lparr>client := pre\<rparr>) = None"
    and data: "getitem response ''data'' = Inr (JArr raw)" and ne: "raw \<noteq> []"
    and typed: "list_all (str_if_present ''date_updated'') (format_dts e EVENT_LOG c raw)"
    and missing: "\<exists>ev \<in> set (format_dts e EVENT_LOG c raw).
                    lacks ''data'' ev \<or> lacks ''previous_data'' ev \<or> lacks ''date_updated'' ev"
  shows "\<exists>c'. sync_event_log e c = Some (Some KeyError, c')
              \<and> bookmarks (state c') = bookmarks (state c1)"
proof -
  note f = update_start_date_bookmark_eq[OF u]
  from f have fd: "format_dts e EVENT_LOG c1 raw = format_dts e EVENT_LOG c raw"
    by (simp add: format_dts_def)
  from f cl have cl1: "client c1 = pre @ Inr response # rest" by simp
  from sync_event_log_loop_KeyError[OF cl1 reach data ne] typed missing fd
  obtain c' where "sync_event_log_loop e (strftime_seconds dt) JNull start c1
                     = Some (Inl KeyError, c')"
    and "state c' = state c1" by auto
  with u parse show ?thesis
    by (simp add: sync_event_log_def Let_def)
qed

text \<open>
  Claim C10. A record without its field is not skipped, the sync ends with the lookup
  error \<open>KeyError\<close> and the bookmark is not committed. For \<open>paginated_sync\<close>: when the
  pages before it are read without error, and the transformed records of a page are
  objects whose bookmark field, where present, is a \<open>str\<close>, one of them lacking the
  field. For the event log: when the responses before it are consumed without leaving
  the loop, and the transformed events of a response are objects whose \<open>date_updated\<close>,
  where present, is a \<open>str\<close>, one of them lacking \<open>data\<close>, \<open>previous_data\<close> or
  \<open>date_updated\<close>. (In a sync that completes, every transformed record had its field:
  see C1.)
\<close>

theorem missing_field_aborts_with_KeyError:
  "(paginate e sid req (case get_offset c (sid, ''skip'') of None \<Rightarrow> 0 | Some n \<Rightarrow> n)
        = map Inr pages @ Inr pg # rest
      \<and> (\<forall>p \<in> set pages. list_all (has_str_field (BOOK_KEYS sid)) (page_records e sid c p))
      \<and> list_all (str_if_present (BOOK_KEYS sid)) (page_records e sid c pg)
      \<and> (\<exists>r \<in> set (page_records e sid c pg). lacks (BOOK_KEYS sid) r)
    \<longrightarrow> (\<exists>c'. paginated_sync e sid c req start = (Some KeyError, c')
            \<and> bookmarks (state c') = bookmarks (state c)))
   \<and> (update_start_date_bookmark c (bookmark EVENT_LOG) = (start', c1)
      \<and> pendulum_parse e start' = Inr dt
      \<and> client c = pre @ Inr response # rest'
      \<and> sync_event_log_loop e (strftime_seconds dt) JNull start' (c1\<lparr>client := pre\<rparr>) = None
      \<and> getitem response ''data'' = Inr (JArr raw) \<and> raw \<noteq> []
      \<and> list_all (str_if_present ''date_updated'') (format_dts e EVENT_LOG c raw)
      \<and> (\<exists>ev \<in> set (format_dts e EVENT_LOG c raw).
            lacks ''data'' ev \<or> lacks ''previous_data'' ev \<or> lacks ''date_updated'' ev)
    \<longrightarrow> (\<exists>c'. sync_event_log e c = Some (Some KeyError, c')
            \<and> bookmarks (state c') = bookmarks (state c1)))"
proof (intro conjI impI)
  assume "paginate e sid req (case get_offset c (sid, ''skip'') of None \<Rightarrow> 0 | Some n \<Rightarrow> n)
        = map Inr pages @ Inr pg # rest
      \<and> (\<forall>p \<in> set pages. list_all (has_str_field (BOOK_KEYS sid)) (page_records e sid c p))
      \<and> list_all (str_if_present (BOOK_KEYS sid)) (page_records e sid c pg)
      \<and> (\<exists>r \<in> set (page_records e sid c pg). lacks (BOOK_KEYS sid) r)"
  then show "\<exists>c'. paginated_sync e sid c req start = (Some KeyError, c')
            \<and> bookmarks (state c') = bookmarks (state c)"
    using paginated_sync_KeyError[of e sid req c pages pg rest start] by blast
next
  assume "update_start_date_bookmark c (bookmark EVENT_LOG) = (start', c1)
      \<and> pendulum_parse e start' = Inr dt
      \<and> client c = pre @ Inr response # rest'
      \<and> sync_event_log_loop e (strftime_seconds dt) JNull start' (c1\<lparr>client := pre\<rparr>) = None
      \<and> getitem response ''data'' = Inr (JArr raw) \<and> raw \<noteq> []
      \<and> list_all (str_if_present ''date_updated'') (format_dts e EVENT_LOG c raw)
      \<and> (\<exists>ev \<in> set (format_dts e EVENT_LOG c raw).
            lacks ''data'' ev \<or> lacks ''previous_data'' ev \<or> lacks ''date_updated'' ev)"
  then show "\<exists>c'. sync_event_log e c = Some (Some KeyError, c')
            \<and> bookmarks (state c') = bookmarks (state c1)"
    using sync_event_log_KeyError[of c start' c1 e dt pre response rest' raw] by blast
qed

theorem missing_field_aborts_with_KeyError_witness:
  "fst (paginated_sync (ex_env [Inr ex_page, Inr ex_page_missing] ex_noon) TASKS
          (ex_ctx (ex_bm TASKS ex_start) None []) (create_request TASKS None) ex_start)
     = Some KeyError
   \<and> get_bookmark (snd (paginated_sync (ex_env [Inr ex_page, Inr ex_page_missing] ex_noon) TASKS
          (ex_ctx (ex_bm TASKS ex_start) None []) (create_request TASKS None) ex_start))
        (bookmark TASKS) = Some ex_start
   \<and> map_option fst (sync_event_log (ex_env [] ex_noon) ex_missing_ctx) = Some (Some KeyError)
   \<and> get_bookmark (snd (the (sync_event_log (ex_env [] ex_noon) ex_missing_ctx)))
        (bookmark EVENT_LOG) = Some ''2024-01-01T11:00:00.000000Z''"
proof -
  let ?e = "ex_env [Inr ex_page, Inr ex_page_missing] ex_noon"
  let ?c = "ex_ctx (ex_bm TASKS ex_start) None []"
  let ?p = "paginated_sync ?e TASKS ?c (create_request TASKS None) ex_start"
  let ?resp = "JObj [(''data'', JArr [JObj [(''id'', JStr ''e2''),
                                          (''date_updated'', JStr ''2024-01-01T11:30:00.000000Z''),
                                          (''data'', JObj [])]]),
                   (''cursor_next'', JNull)]"
  let ?raw = "[JObj [(''id'', JStr ''e2''),
                    (''date_updated'', JStr ''2024-01-01T11:30:00.000000Z''),
                    (''data'', JObj [])]]"
  have h1: "paginate ?e TASKS (create_request TASKS None)
              (case get_offset ?c (TASKS, ''skip'') of None \<Rightarrow> 0 | Some n \<Rightarrow> n)
        = map Inr [ex_page] @ Inr ex_page_missing # []
      \<and> (\<forall>p \<in> set [ex_page]. list_all (has_str_field (BOOK_KEYS TASKS)) (page_records ?e TASKS ?c p))
      \<and> list_all (str_if_present (BOOK_KEYS TASKS)) (page_records ?e TASKS ?c ex_page_missing)
      \<and> (\<exists>r \<in> set (page_records ?e TASKS ?c ex_page_missing). lacks (BOOK_KEYS TASKS) r)"
    by (simp add: ex_defs ex_bm_def ex_page_missing_def page_records_def format_dts_def
          has_str_field_def get_offset_def)
  have h2: "update_start_date_bookmark ex_missing_ctx (bookmark EVENT_LOG)
              = (''2024-01-01T11:00:00.000000Z'', ex_missing_ctx)
      \<and> pendulum_parse (ex_env [] ex_noon) ''2024-01-01T11:00:00.000000Z'' = Inr ex_1100
      \<and> client ex_missing_ctx = [] @ Inr ?resp # []
      \<and> sync_event_log_loop (ex_env [] ex_noon) (strftime_seconds ex_1100) JNull
           ''2024-01-01T11:00:00.000000Z'' (ex_missing_ctx\<lparr>client := []\<rparr>) = None
      \<and> getitem ?resp ''data'' = Inr (JArr ?raw) \<and> ?raw \<noteq> []
      \<and> list_all (str_if_present ''date_updated'')
            (format_dts (ex_env [] ex_noon) EVENT_LOG ex_missing_ctx ?raw)
      \<and> (\<exists>ev \<in> set (format_dts (ex_env [] ex_noon) EVENT_LOG ex_missing_ctx ?raw).
            lacks ''data'' ev \<or> lacks ''previous_data'' ev \<or> lacks ''date_updated'' ev)"
    by (simp add: update_start_date_bookmark_def ex_missing_ctx_def ex_defs ex_bm_def
          ex_parse_def bookmark_def get_bookmark_def format_dts_def
          sync_event_log_loop.simps sync_event_log_page_def request_with_handling_def Let_def)
  from missing_field_aborts_with_KeyError[where e = ?e and sid = TASKS and c = ?c
      and req = "create_request TASKS None" and pages = "[ex_page]" and pg = ex_page_missing
      and rest = "[]" and start = ex_start] h1
  obtain c' where p: "?p = (Some KeyError, c')"
    and b: "bookmarks (state c') = bookmarks (state ?c)" by blast
  from missing_field_aborts_with_KeyError[where e = "ex_env [] ex_noon" and c = ex_missing_ctx
      and start' = "''2024-01-01T11:00:00.000000Z''" and ?c1.0 = ex_missing_ctx and dt = ex_1100
      and pre = "[]" and response = ?resp and rest' = "[]" and raw = ?raw] h2
  obtain c'' where v: "sync_event_log (ex_env [] ex_noon) ex_missing_ctx = Some (Some KeyError, c'')"
    and b': "bookmarks (state c'') = bookmarks (state ex_missing_ctx)" by blast
  have "get_bookmark (snd ?p) (bookmark TASKS) = Some ex_start"
    using p b by (simp add: get_bookmark_def ex_ctx_def ex_state_def ex_bm_def)
  moreover have "get_bookmark (snd (the (sync_event_log (ex_env [] ex_noon) ex_missing_ctx)))
        (bookmark EVENT_LOG) = Some ''2024-01-01T11:00:00.000000Z''"
    using v b' by (simp add: get_bookmark_def ex_missing_ctx_def ex_ctx_def ex_state_def ex_bm_def)
  ultimately show ?thesis using p v by simp
qed

end
